theory Spec2Isabelle
  imports Complex_Main "HOL-Library.Char_ord" "HOL-Library.List_Lexorder"
begin

section \<open>Conventions of the embedding\<close>

text \<open>
  The retrieval lab is Python. Its values are embedded as follows.
  \<^item> \<open>str\<close> is \<open>string\<close>; the embedding covers ASCII text (a HOL \<open>char\<close> is one byte).
  \<^item> \<open>int\<close> is \<open>int\<close>; a length or a count is \<open>nat\<close>.
  \<^item> \<open>float\<close> is \<open>real\<close>: rounding and overflow of IEEE doubles are not modelled, so a
    statement about a score is a statement about the formula the code evaluates.
  \<^item> a \<open>dict\<close> that is iterated is an association list in insertion order (its keys are
    distinct in Python); a \<open>dict\<close> that is only looked up is a map.
  \<^item> an exception is the \<open>Inl\<close> branch of a sum.
\<close>

datatype py_error =
    IndexError
  | KeyError
  | ValueError
  | ZeroDivisionError
  | RuntimeError
  | OtherError string

type_synonym 'a result = "py_error + 'a"

definition bind_result :: "'a result \<Rightarrow> ('a \<Rightarrow> 'b result) \<Rightarrow> 'b result" where
  "bind_result r f = (case r of Inl e \<Rightarrow> Inl e | Inr v \<Rightarrow> f v)"

text \<open>\<open>xs[:k]\<close>: a negative bound counts from the end.\<close>

definition py_take :: "int \<Rightarrow> 'a list \<Rightarrow> 'a list" where
  "py_take k xs = (if 0 \<le> k then take (nat k) xs else take (nat (int (length xs) + k)) xs)"

text \<open>\<open>xs[:top_k]\<close> under \<open>if top_k is not None\<close>.\<close>

definition py_top :: "int option \<Rightarrow> 'a list \<Rightarrow> 'a list" where
  "py_top top_k xs = (case top_k of None \<Rightarrow> xs | Some k \<Rightarrow> py_take k xs)"

text \<open>\<open>a / b\<close> on floats raises on a zero divisor; \<open>math.log\<close>, \<open>math.log2\<close> and
  \<open>math.log10\<close> raise outside the positive reals.\<close>

definition py_div :: "real \<Rightarrow> real \<Rightarrow> real result" where
  "py_div a b = (if b = 0 then Inl ZeroDivisionError else Inr (a / b))"

definition py_log :: "real \<Rightarrow> real result" where
  "py_log x = (if 0 < x then Inr (ln x) else Inl ValueError)"

definition py_log2 :: "real \<Rightarrow> real result" where
  "py_log2 x = (if 0 < x then Inr (log 2 x) else Inl ValueError)"


text \<open>\<open>sorted(xs, key=f, reverse=True)\<close>: a stable sort, largest key first; elements with
  equal keys keep their order.\<close>

definition sorted_reverse :: "('a \<Rightarrow> 'k::{linorder,uminus}) \<Rightarrow> 'a list \<Rightarrow> 'a list" where
  "sorted_reverse f xs = sort_key (\<lambda>x. - f x) xs"

section \<open>Evaluation engine: DCG and nDCG (llm.py)\<close>

text \<open>\<open>rels_k = list(rels[:k]); if len(rels_k) < k: rels_k.extend([0] * (k - len(rels_k)))\<close>\<close>

definition pad_rels :: "int list \<Rightarrow> int \<Rightarrow> int list" where
  "pad_rels rels k =
     (let rels_k = py_take k rels in
      if int (length rels_k) < k
      then rels_k @ replicate (nat (k - int (length rels_k))) 0
      else rels_k)"

text \<open>\<open>for rank, rel in enumerate(rels_k[1:], start=2): score += float(rel) / math.log2(rank + 1)\<close>\<close>

fun dcg_loop :: "real \<Rightarrow> nat \<Rightarrow> int list \<Rightarrow> real result" where
  "dcg_loop score rank [] = Inr score"
| "dcg_loop score rank (rel # rest) =
     bind_result (py_log2 (real (rank + 1))) (\<lambda>l.
     bind_result (py_div (real_of_int rel) l) (\<lambda>q.
     dcg_loop (score + q) (Suc rank) rest))"

definition dcg_at_k :: "int list \<Rightarrow> int \<Rightarrow> real result" where
  "dcg_at_k rels k =
     (case pad_rels rels k of
        [] \<Rightarrow> Inr 0
      | r0 # rest \<Rightarrow> dcg_loop (real_of_int r0) 2 rest)"





section \<open>Tokenizer (corpus.py)\<close>

text \<open>Character classes of ASCII text, as \<open>re\<close> and \<open>str\<close> see them.\<close>

definition is_lower :: "char \<Rightarrow> bool" where
  "is_lower c = (CHR ''a'' \<le> c \<and> c \<le> CHR ''z'')"

definition is_upper :: "char \<Rightarrow> bool" where
  "is_upper c = (CHR ''A'' \<le> c \<and> c \<le> CHR ''Z'')"

definition is_digit :: "char \<Rightarrow> bool" where
  "is_digit c = (CHR ''0'' \<le> c \<and> c \<le> CHR ''9'')"

text \<open>\<open>[a-z0-9]\<close> under \<open>re.IGNORECASE\<close>.\<close>

definition is_alnum :: "char \<Rightarrow> bool" where
  "is_alnum c = (is_lower c \<or> is_upper c \<or> is_digit c)"

text \<open>\<open>\w\<close>: a letter, a digit or the underscore.\<close>

definition is_word :: "char \<Rightarrow> bool" where
  "is_word c = (is_alnum c \<or> c = CHR ''_'')"

text \<open>\<open>str.isspace\<close> on ASCII: tab to carriage return, the four separators, the space.\<close>

definition is_space :: "char \<Rightarrow> bool" where
  "is_space c = ((9 \<le> (of_char c :: nat) \<and> (of_char c :: nat) \<le> 13)
               \<or> (28 \<le> (of_char c :: nat) \<and> (of_char c :: nat) \<le> 32))"

definition lower_char :: "char \<Rightarrow> char" where
  "lower_char c = (if is_upper c then char_of ((of_char c :: nat) + 32) else c)"

definition upper_char :: "char \<Rightarrow> char" where
  "upper_char c = (if is_lower c then char_of ((of_char c :: nat) - 32) else c)"

definition py_lower :: "string \<Rightarrow> string" where
  "py_lower s = map lower_char s"

definition py_upper :: "string \<Rightarrow> string" where
  "py_upper s = map upper_char s"

text \<open>\<open>s.strip()\<close> and \<open>s.split()\<close> on white space.\<close>

definition py_strip :: "string \<Rightarrow> string" where
  "py_strip s = rev (dropWhile is_space (rev (dropWhile is_space s)))"

fun split_ws :: "string \<Rightarrow> string \<Rightarrow> string list" where
  "split_ws cur [] = (if cur = [] then [] else [cur])"
| "split_ws cur (c # cs) =
     (if is_space c then (if cur = [] then [] else [cur]) @ split_ws [] cs
      else split_ws (cur @ [c]) cs)"

definition py_split :: "string \<Rightarrow> string list" where
  "py_split s = split_ws [] s"

definition apostrophe :: char where
  "apostrophe = CHR 0x27"

text \<open>
  \<open>_TOKEN_RE = re.compile(r"[a-z0-9]+(?:'[a-z0-9]+)?", re.IGNORECASE)\<close> and
  \<open>finditer\<close>: the matches from left to right, each a longest run of letters and digits,
  extended once by an apostrophe that a letter or digit follows. \<open>cur\<close> is the match
  being read and \<open>ap\<close> says whether it already holds its apostrophe.
\<close>

fun scan_tokens :: "string \<Rightarrow> bool \<Rightarrow> string \<Rightarrow> string list" where
  "scan_tokens cur ap [] = (if cur = [] then [] else [cur])"
| "scan_tokens cur ap (c # cs) =
     (if is_alnum c then scan_tokens (cur @ [c]) ap cs
      else if c = apostrophe \<and> cur \<noteq> [] \<and> \<not> ap
              \<and> (case cs of [] \<Rightarrow> False | d # _ \<Rightarrow> is_alnum d)
           then scan_tokens (cur @ [c]) True cs
      else (if cur = [] then [] else [cur]) @ scan_tokens [] False cs)"

text \<open>\<open>def tokenize(text): return [m.group(0).lower() for m in _TOKEN_RE.finditer(text)]\<close>\<close>

definition tokenize :: "string \<Rightarrow> string list" where
  "tokenize text = map py_lower (scan_tokens [] False text)"

definition STOPWORDS :: "string set" where
  "STOPWORDS = set [
    ''a'', ''an'', ''and'', ''are'', ''as'', ''at'', ''be'', ''by'', ''for'', ''from'',
    ''has'', ''he'', ''in'', ''is'', ''it'', ''its'', ''of'', ''on'', ''that'', ''the'',
    ''to'', ''was'', ''were'', ''will'', ''with'', ''the'', ''this'', ''but'', ''they'',
    ''have'', ''had'', ''what'', ''when'', ''where'', ''who'', ''which'', ''why'', ''how'',
    ''all'', ''each'', ''every'', ''both'', ''few'', ''more'', ''most'', ''other'', ''some'',
    ''such'', ''no'', ''nor'', ''not'', ''only'', ''own'', ''same'', ''so'', ''than'', ''too'',
    ''very'', ''can'', ''just'', ''should'', ''now'', ''one'', ''two'', ''three'']"

text \<open>
  \<open>def preprocess(text, *, stopwords=STOPWORDS)\<close>: every caller in the repository passes
  the default or \<open>STOPWORDS\<close> itself.
\<close>

definition preprocess_with :: "string set \<Rightarrow> string \<Rightarrow> string list" where
  "preprocess_with stopwords text =
     (let tokens = tokenize text in
      if tokens = [] then [] else filter (\<lambda>t. t \<notin> stopwords) tokens)"

definition preprocess :: "string \<Rightarrow> string list" where
  "preprocess text = preprocess_with STOPWORDS text"

text \<open>The processed corpus: \<open>Dict[str, List[str]]\<close>, document id to tokens, in insertion order.\<close>

type_synonym corpus = "(string \<times> string list) list"

text \<open>A ranking: \<open>List[Tuple[str, float]]\<close>.\<close>

type_synonym ranking = "(string \<times> real) list"

section \<open>Boolean model (models/booleanModel.py)\<close>

text \<open>\<open>_BoolToken(kind, value)\<close>: the kind is one of six strings, and only a \<open>TERM\<close> has a value.\<close>

datatype bool_token =
    Tok_TERM string
  | Tok_AND
  | Tok_OR
  | Tok_NOT
  | Tok_LPAREN
  | Tok_RPAREN

fun is_TERM :: "bool_token \<Rightarrow> bool" where
  "is_TERM (Tok_TERM v) = True"
| "is_TERM t = False"

text \<open>The first loop of \<open>_tokenize_boolean_query\<close>: cut at parentheses and white space.\<close>

definition flush_buf :: "string list \<Rightarrow> string \<Rightarrow> string list" where
  "flush_buf parts buf = (if py_strip buf \<noteq> [] then parts @ py_split (py_strip buf) else parts)"

fun split_parts :: "string list \<Rightarrow> string \<Rightarrow> string \<Rightarrow> string list" where
  "split_parts parts buf [] = flush_buf parts buf"
| "split_parts parts buf (ch # rest) =
     (if ch = CHR ''('' \<or> ch = CHR '')''
      then split_parts (flush_buf parts buf @ [[ch]]) [] rest
      else split_parts parts (buf @ [ch]) rest)"

text \<open>A part that yields several terms is joined with \<open>AND\<close>.\<close>

fun join_terms :: "bool \<Rightarrow> string list \<Rightarrow> bool_token list" where
  "join_terms first [] = []"
| "join_terms first (t # ts) =
     (if \<not> first then [Tok_AND] else []) @ [Tok_TERM t] @ join_terms False ts"

fun classify_parts :: "string list \<Rightarrow> bool_token list" where
  "classify_parts [] = []"
| "classify_parts (p # ps) =
     (let u = py_upper p in
      if p = ''('' then Tok_LPAREN # classify_parts ps
      else if p = '')'' then Tok_RPAREN # classify_parts ps
      else if u = ''AND'' then Tok_AND # classify_parts ps
      else if u = ''OR'' then Tok_OR # classify_parts ps
      else if u = ''NOT'' then Tok_NOT # classify_parts ps
      else (let norm_terms = preprocess_with STOPWORDS p in
            if norm_terms = [] then classify_parts ps
            else join_terms True norm_terms @ classify_parts ps))"

definition tokenize_boolean_query :: "string \<Rightarrow> bool_token list" where
  "tokenize_boolean_query query =
     (let raw = py_strip query in
      if raw = [] then [] else classify_parts (split_parts [] [] raw))"

text \<open>
  A Python list used as a stack is a HOL list with its top first: \<open>stack[-1]\<close> is the head,
  \<open>stack.append\<close> is \<open>#\<close>. Both \<open>stack[-1]\<close> and \<open>stack.pop()\<close> raise \<open>IndexError\<close> on the
  empty list, and \<open>prec[kind]\<close> raises \<open>KeyError\<close> outside the three operators.
\<close>

definition py_peek :: "'a list \<Rightarrow> 'a result" where
  "py_peek stack = (case stack of [] \<Rightarrow> Inl IndexError | x # rest \<Rightarrow> Inr x)"

definition py_pop :: "'a list \<Rightarrow> ('a \<times> 'a list) result" where
  "py_pop stack = (case stack of [] \<Rightarrow> Inl IndexError | x # rest \<Rightarrow> Inr (x, rest))"

fun prec :: "bool_token \<Rightarrow> nat option" where
  "prec Tok_NOT = Some 3"
| "prec Tok_AND = Some 2"
| "prec Tok_OR = Some 1"
| "prec t = None"

definition prec_get :: "bool_token \<Rightarrow> nat result" where
  "prec_get t = (case prec t of None \<Rightarrow> Inl KeyError | Some p \<Rightarrow> Inr p)"

text \<open>\<open>while stack and stack[-1].kind in prec and prec[stack[-1].kind] >= prec[tok.kind]:
  out.append(stack.pop())\<close>\<close>

function pop_ops ::
  "bool_token \<Rightarrow> bool_token list \<Rightarrow> bool_token list \<Rightarrow> (bool_token list \<times> bool_token list) result" where
  "pop_ops tok out stack =
     (if stack = [] then Inr (out, stack)
      else case py_peek stack of
        Inl e \<Rightarrow> Inl e
      | Inr tp \<Rightarrow>
          if prec tp = None then Inr (out, stack)
          else case prec_get tp of
            Inl e \<Rightarrow> Inl e
          | Inr a \<Rightarrow>
              (case prec_get tok of
                 Inl e \<Rightarrow> Inl e
               | Inr b \<Rightarrow>
                   if a \<ge> b
                   then (case py_pop stack of
                           Inl e \<Rightarrow> Inl e
                         | Inr (x, stack') \<Rightarrow> pop_ops tok (out @ [x]) stack')
                   else Inr (out, stack)))"
  by pat_completeness auto
termination
  by (relation "measure (\<lambda>(tok, out, stack). length stack)")
     (auto simp: py_pop_def split: list.splits)

text \<open>\<open>while stack and stack[-1].kind != "LPAREN": out.append(stack.pop())\<close>\<close>

function pop_to_lparen ::
  "bool_token list \<Rightarrow> bool_token list \<Rightarrow> (bool_token list \<times> bool_token list) result" where
  "pop_to_lparen out stack =
     (if stack = [] then Inr (out, stack)
      else case py_peek stack of
        Inl e \<Rightarrow> Inl e
      | Inr tp \<Rightarrow>
          if tp \<noteq> Tok_LPAREN
          then (case py_pop stack of
                  Inl e \<Rightarrow> Inl e
                | Inr (x, stack') \<Rightarrow> pop_to_lparen (out @ [x]) stack')
          else Inr (out, stack))"
  by pat_completeness auto
termination
  by (relation "measure (\<lambda>(out, stack). length stack)")
     (auto simp: py_pop_def split: list.splits)

text \<open>\<open>if stack and stack[-1].kind == "LPAREN": stack.pop()\<close>\<close>

definition drop_lparen :: "bool_token list \<Rightarrow> bool_token list result" where
  "drop_lparen stack =
     (if stack = [] then Inr stack
      else bind_result (py_peek stack) (\<lambda>tp.
        if tp = Tok_LPAREN
        then bind_result (py_pop stack) (\<lambda>(x, stack'). Inr stack')
        else Inr stack))"

text \<open>\<open>while stack: out.append(stack.pop())\<close>\<close>

function flush_stack :: "bool_token list \<Rightarrow> bool_token list \<Rightarrow> bool_token list result" where
  "flush_stack out stack =
     (if stack = [] then Inr out
      else case py_pop stack of
        Inl e \<Rightarrow> Inl e
      | Inr (x, stack') \<Rightarrow> flush_stack (out @ [x]) stack')"
  by pat_completeness auto
termination
  by (relation "measure (\<lambda>(out, stack). length stack)")
     (auto simp: py_pop_def split: list.splits)

text \<open>The token loop of \<open>_to_rpn\<close> (shunting-yard, \<open>NOT > AND > OR\<close>).\<close>

fun to_rpn_loop ::
  "bool_token list \<Rightarrow> bool_token list \<Rightarrow> bool_token list \<Rightarrow> (bool_token list \<times> bool_token list) result" where
  "to_rpn_loop [] out stack = Inr (out, stack)"
| "to_rpn_loop (tok # toks) out stack =
     (if is_TERM tok then to_rpn_loop toks (out @ [tok]) stack
      else if tok = Tok_AND \<or> tok = Tok_OR \<or> tok = Tok_NOT then
        bind_result (pop_ops tok out stack) (\<lambda>(out', stack').
          to_rpn_loop toks out' (tok # stack'))
      else if tok = Tok_LPAREN then to_rpn_loop toks out (tok # stack)
      else if tok = Tok_RPAREN then
        bind_result (pop_to_lparen out stack) (\<lambda>(out', stack').
        bind_result (drop_lparen stack') (\<lambda>stack''.
          to_rpn_loop toks out' stack''))
      else to_rpn_loop toks out stack)"

definition to_rpn :: "bool_token list \<Rightarrow> bool_token list result" where
  "to_rpn tokens =
     bind_result (to_rpn_loop tokens [] []) (\<lambda>(out, stack). flush_stack out stack)"

text \<open>\<open>stack.pop() if stack else False\<close>\<close>

definition pop_or_False :: "bool list \<Rightarrow> (bool \<times> bool list) result" where
  "pop_or_False stack = (if stack \<noteq> [] then py_pop stack else Inr (False, stack))"

fun eval_rpn_loop :: "bool_token list \<Rightarrow> string set \<Rightarrow> bool list \<Rightarrow> bool list result" where
  "eval_rpn_loop [] doc_set stack = Inr stack"
| "eval_rpn_loop (Tok_TERM v # rpn) doc_set stack =
     eval_rpn_loop rpn doc_set ((v \<in> doc_set) # stack)"
| "eval_rpn_loop (Tok_NOT # rpn) doc_set stack =
     bind_result (pop_or_False stack) (\<lambda>(a, stack1).
       eval_rpn_loop rpn doc_set ((\<not> a) # stack1))"
| "eval_rpn_loop (Tok_AND # rpn) doc_set stack =
     bind_result (pop_or_False stack) (\<lambda>(b, stack1).
     bind_result (pop_or_False stack1) (\<lambda>(a, stack2).
       eval_rpn_loop rpn doc_set ((a \<and> b) # stack2)))"
| "eval_rpn_loop (Tok_OR # rpn) doc_set stack =
     bind_result (pop_or_False stack) (\<lambda>(b, stack1).
     bind_result (pop_or_False stack1) (\<lambda>(a, stack2).
       eval_rpn_loop rpn doc_set ((a \<or> b) # stack2)))"
| "eval_rpn_loop (tok # rpn) doc_set stack = eval_rpn_loop rpn doc_set stack"

text \<open>\<open>return bool(stack[-1]) if stack else False\<close>\<close>

definition eval_rpn :: "bool_token list \<Rightarrow> string list \<Rightarrow> bool result" where
  "eval_rpn rpn doc_terms =
     bind_result (eval_rpn_loop rpn (set doc_terms) []) (\<lambda>stack.
       if stack \<noteq> [] then py_peek stack else Inr False)"

text \<open>The implicit \<open>AND\<close> between two adjacent terms; \<open>expanded[-1]\<close> is read under the
  guard \<open>expanded and\<close>.\<close>

fun expand_terms :: "bool_token list \<Rightarrow> bool_token list \<Rightarrow> bool_token list" where
  "expand_terms expanded [] = expanded"
| "expand_terms expanded (tok # toks) =
     expand_terms
       ((if expanded \<noteq> [] \<and> is_TERM (last expanded) \<and> is_TERM tok
         then expanded @ [Tok_AND] else expanded) @ [tok])
       toks"

text \<open>\<open>for doc_id, doc_terms in self.corpus.items(): if _eval_rpn(rpn, doc_terms):
  results.append((doc_id, 1.0))\<close>\<close>

fun match_docs :: "bool_token list \<Rightarrow> corpus \<Rightarrow> ranking result" where
  "match_docs rpn [] = Inr []"
| "match_docs rpn ((doc_id, doc_terms) # docs) =
     bind_result (eval_rpn rpn doc_terms) (\<lambda>m.
     bind_result (match_docs rpn docs) (\<lambda>results.
       Inr ((if m then [(doc_id, 1)] else []) @ results)))"

text \<open>\<open>BooleanModel.search\<close>; the model's only field is the corpus.\<close>

definition boolean_search :: "corpus \<Rightarrow> string \<Rightarrow> int option \<Rightarrow> ranking result" where
  "boolean_search corpus query top_k =
     (let tokens = tokenize_boolean_query query in
      if tokens = [] then Inr []
      else
        bind_result (to_rpn (expand_terms [] tokens)) (\<lambda>rpn.
        bind_result (match_docs rpn corpus) (\<lambda>results.
          Inr (py_top top_k (sort_key fst results)))))"

text \<open>
  The evaluation rule of the specification, section 4.2, as a pure function: a term is a
  membership test, \<open>NOT\<close> negates, \<open>AND\<close> and \<open>OR\<close> combine the two most recent stack
  values, and a missing operand is read as \<open>False\<close>.
\<close>

definition top_or_False :: "bool list \<Rightarrow> bool" where
  "top_or_False stack = (case stack of [] \<Rightarrow> False | x # rest \<Rightarrow> x)"

fun spec_eval :: "bool_token list \<Rightarrow> string set \<Rightarrow> bool list \<Rightarrow> bool list" where
  "spec_eval [] doc_set stack = stack"
| "spec_eval (Tok_TERM v # rpn) doc_set stack = spec_eval rpn doc_set ((v \<in> doc_set) # stack)"
| "spec_eval (Tok_NOT # rpn) doc_set stack =
     spec_eval rpn doc_set ((\<not> top_or_False stack) # tl stack)"
| "spec_eval (Tok_AND # rpn) doc_set stack =
     spec_eval rpn doc_set ((top_or_False (tl stack) \<and> top_or_False stack) # tl (tl stack))"
| "spec_eval (Tok_OR # rpn) doc_set stack =
     spec_eval rpn doc_set ((top_or_False (tl stack) \<or> top_or_False stack) # tl (tl stack))"
| "spec_eval (tok # rpn) doc_set stack = spec_eval rpn doc_set stack"

text \<open>Whether a search returned, and with or without a given document.\<close>

definition includes_doc :: "ranking result \<Rightarrow> string \<Rightarrow> bool" where
  "includes_doc res d = (case res of Inl e \<Rightarrow> False | Inr r \<Rightarrow> d \<in> fst ` set r)"

definition excludes_doc :: "ranking result \<Rightarrow> string \<Rightarrow> bool" where
  "excludes_doc res d = (case res of Inl e \<Rightarrow> False | Inr r \<Rightarrow> d \<notin> fst ` set r)"


section \<open>BM25 model (models/BM25Model.py)\<close>

text \<open>
  A \<open>Counter\<close> is a function to \<open>nat\<close>: a missing key counts \<open>0\<close>, and since no count is ever
  decremented a key is present exactly when its count is positive.
\<close>

type_synonym counter = "string \<Rightarrow> nat"

definition Counter :: "string list \<Rightarrow> counter" where
  "Counter tokens = (\<lambda>t. count_list tokens t)"

record bm25_model =
  bm_corpus :: corpus
  bm_k1 :: real
  bm_b :: real
  bm_doc_lens :: "string \<rightharpoonup> nat"
  bm_avgdl :: real
  bm_N :: nat
  bm_doc_freqs :: counter
  bm_tf :: "string \<rightharpoonup> counter"

text \<open>\<open>_compute_df\<close>: \<open>df.update(set(tokens))\<close> for each document.\<close>

definition compute_df :: "corpus \<Rightarrow> counter" where
  "compute_df corpus = (\<lambda>t. length (filter (\<lambda>(doc_id, tokens). t \<in> set tokens) corpus))"

text \<open>\<open>BM25Model.__init__(corpus, k1=1.5, b=0.75)\<close>\<close>

definition bm25_init :: "corpus \<Rightarrow> real \<Rightarrow> real \<Rightarrow> bm25_model" where
  "bm25_init corpus k1 b =
     \<lparr> bm_corpus = corpus,
       bm_k1 = k1,
       bm_b = b,
       bm_doc_lens = map_of (map (\<lambda>(doc_id, tokens). (doc_id, length tokens)) corpus),
       bm_avgdl = (if corpus \<noteq> []
                   then real (sum_list (map (\<lambda>(doc_id, tokens). length tokens) corpus))
                        / real (length corpus)
                   else 0),
       bm_N = length corpus,
       bm_doc_freqs = compute_df corpus,
       bm_tf = map_of (map (\<lambda>(doc_id, tokens). (doc_id, Counter tokens)) corpus) \<rparr>"

text \<open>\<open>return math.log((self.N - n_qi + 0.5) / (n_qi + 0.5) + 1)\<close>, on a document count
  \<open>N\<close> and a document frequency \<open>n_qi\<close>.\<close>

definition idf_value :: "nat \<Rightarrow> nat \<Rightarrow> real result" where
  "idf_value N n_qi =
     bind_result (py_div (real N - real n_qi + 0.5) (real n_qi + 0.5)) (\<lambda>q. py_log (q + 1))"






section \<open>Language model with Jelinek-Mercer smoothing (models/languageModel.py)\<close>

record lm_model =
  lm_corpus :: corpus
  lm_lam :: real
  lm_doc_lens :: "string \<rightharpoonup> nat"
  lm_doc_counts :: "string \<rightharpoonup> counter"
  lm_collection_len :: nat
  lm_collection_probs :: "string \<rightharpoonup> real"

text \<open>\<open>LanguageModelJM.__init__(corpus, lam=0.5)\<close>; the division is under the guard
  \<open>self.collection_len > 0\<close>.\<close>

definition lm_init :: "corpus \<Rightarrow> real \<Rightarrow> lm_model" where
  "lm_init corpus lam =
     (let all_tokens = concat (map snd corpus);
          collection_len = length all_tokens;
          collection_counts = Counter all_tokens
      in \<lparr> lm_corpus = corpus,
           lm_lam = lam,
           lm_doc_lens = map_of (map (\<lambda>(doc_id, tokens). (doc_id, length tokens)) corpus),
           lm_doc_counts = map_of (map (\<lambda>(doc_id, tokens). (doc_id, Counter tokens)) corpus),
           lm_collection_len = collection_len,
           lm_collection_probs =
             (if 0 < collection_len
              then (\<lambda>t. if 0 < collection_counts t
                        then Some (real (collection_counts t) / real collection_len)
                        else None)
              else Map.empty) \<rparr>)"

definition epsilon :: real where
  "epsilon = 1 / 10 ^ 12"

text \<open>The loop over the query terms for one document.\<close>

fun lm_terms :: "lm_model \<Rightarrow> nat \<Rightarrow> counter \<Rightarrow> string list \<Rightarrow> real \<Rightarrow> real result" where
  "lm_terms m doc_len doc_probs [] log_score = Inr log_score"
| "lm_terms m doc_len doc_probs (t # ts) log_score =
     bind_result (if 0 < doc_len then py_div (real (doc_probs t)) (real doc_len) else Inr 0)
       (\<lambda>p_term_doc.
     let p_term_col = (case lm_collection_probs m t of None \<Rightarrow> 0 | Some p \<Rightarrow> p);
         smoothed_prob = (1 - lm_lam m) * p_term_doc + lm_lam m * p_term_col;
         smoothed_prob' = max smoothed_prob epsilon
     in bind_result (py_log smoothed_prob') (\<lambda>l.
          lm_terms m doc_len doc_probs ts (log_score + l)))"

fun lm_docs :: "lm_model \<Rightarrow> string list \<Rightarrow> corpus \<Rightarrow> ranking result" where
  "lm_docs m query_tokens [] = Inr []"
| "lm_docs m query_tokens ((doc_id, doc_tokens) # docs) =
     (let doc_len = (case lm_doc_lens m doc_id of None \<Rightarrow> length doc_tokens | Some l \<Rightarrow> l);
          doc_probs = (case lm_doc_counts m doc_id of None \<Rightarrow> Counter doc_tokens | Some c \<Rightarrow> c)
      in bind_result (lm_terms m doc_len doc_probs query_tokens 0) (\<lambda>log_score.
         bind_result (lm_docs m query_tokens docs) (\<lambda>scores.
           Inr ((doc_id, log_score) # scores))))"

definition lm_search :: "lm_model \<Rightarrow> string \<Rightarrow> int option \<Rightarrow> ranking result" where
  "lm_search m query top_k =
     (let query_tokens = preprocess query in
      bind_result (lm_docs m query_tokens (lm_corpus m)) (\<lambda>scores.
        Inr (py_top top_k (sorted_reverse snd scores))))"

text \<open>
  Two facts about a model that \<open>lm_init\<close> built, used in the proofs: its probabilities lie
  in the unit interval, and the length and the counter stored under a document id come from
  the same token list.
\<close>

definition probs_ok :: "lm_model \<Rightarrow> bool" where
  "probs_ok m = (0 \<le> lm_lam m \<and> lm_lam m \<le> 1
     \<and> (\<forall>t p. lm_collection_probs m t = Some p \<longrightarrow> 0 \<le> p \<and> p \<le> 1))"

definition counts_ok :: "lm_model \<Rightarrow> bool" where
  "counts_ok m = (\<forall>d. (lm_doc_lens m d = None \<and> lm_doc_counts m d = None)
     \<or> (\<exists>toks. lm_doc_lens m d = Some (length toks) \<and> lm_doc_counts m d = Some (Counter toks)))"

section \<open>Vector space model (models/vectorSpaceModel.py)\<close>










section \<open>Relevance judge (llm.py)\<close>

subsection \<open>The local heuristic\<close>

text \<open>The heuristic's own tokenizer, \<open>re.findall(r"[\w']+", (s or "").lower())\<close>: the
  longest runs of word characters and apostrophes of the lower-cased text.\<close>

fun word_runs :: "string \<Rightarrow> string \<Rightarrow> string list" where
  "word_runs cur [] = (if cur = [] then [] else [cur])"
| "word_runs cur (c # cs) =
     (if is_word c \<or> c = apostrophe then word_runs (cur @ [c]) cs
      else (if cur = [] then [] else [cur]) @ word_runs [] cs)"

definition heuristic_tokenize :: "string \<Rightarrow> string list" where
  "heuristic_tokenize s = word_runs [] (py_lower s)"

text \<open>\<open>LLMJudge._heuristic_score\<close>; the divisor is \<open>max(1, len(q_tokens))\<close>.\<close>

definition heuristic_score :: "string \<Rightarrow> string \<Rightarrow> int result" where
  "heuristic_score query doc_text =
     (let q_tokens = filter (\<lambda>t. 3 \<le> length t) (heuristic_tokenize query);
          d_tokens = set (filter (\<lambda>t. 3 \<le> length t) (heuristic_tokenize doc_text))
      in if q_tokens = [] then Inr 0
         else
           let overlap = length (filter (\<lambda>t. t \<in> d_tokens) q_tokens) in
           bind_result (py_div (real overlap) (real (max 1 (length q_tokens)))) (\<lambda>ratio.
             if 6 / 10 \<le> ratio then Inr 2
             else if 25 / 100 \<le> ratio then Inr 1
             else Inr 0))"


subsection \<open>Configuration, state and the outside world\<close>

record judge_config =
  cfg_backend :: string
  cfg_gemini_model :: string
  cfg_groq_model :: string
  cfg_cache_path :: string

text \<open>The fields of an \<open>LLMJudge\<close> after \<open>__init__\<close>; the cache is a \<open>Dict[str, int]\<close>.\<close>

record judge =
  j_config :: judge_config
  j_logged_backend :: bool
  j_logged_cache :: bool
  j_cache :: "string \<rightharpoonup> int"

text \<open>
  What the judge reads from outside the program. The two probes read the environment. A
  remote call is a function of the number of remote calls made before it, the query and the
  document text that fill the prompt, and the model name; it returns the response text or
  raises. The digest is a parameter: SHA-256 is not computed in the embedding. The last
  field says whether a file can be written.
\<close>

record backends =
  is_gemini_configured :: bool
  is_groq_configured :: bool
  call_gemini :: "nat \<Rightarrow> string \<Rightarrow> string \<Rightarrow> string \<Rightarrow> string result"
  call_groq :: "nat \<Rightarrow> string \<Rightarrow> string \<Rightarrow> string \<Rightarrow> string result"
  sha256_hex :: "string \<Rightarrow> string"
  fs_writable :: bool

text \<open>What the program prints: only the text of the abort branch is kept letter for letter.\<close>

datatype printed =
    Text string
  | EvalHeader string
  | ModelHeader string
  | DocLine string real int
  | NdcgLine int real
  | CauseLine py_error
  | SummaryLine string int real
  | ReportLine string

text \<open>The benchmark report, the payload of \<open>json.dumps\<close>.\<close>

record report =
  r_metric :: int
  r_queries :: "string list"
  r_per_query :: "(string \<times> (string \<times> real) list) list"
  r_summary :: "(string \<times> real) list"
  r_backend :: string
  r_gemini_model :: string
  r_groq_model :: string
  r_cache_path :: string

text \<open>
  What the program changes outside its own objects: the cache file, the report file and the
  standard output. The two counters are not in the source; they count the calls of a remote
  backend and of the heuristic.
\<close>

record world =
  w_remote_calls :: nat
  w_heuristic_calls :: nat
  w_cache_file :: "(string \<rightharpoonup> int) option"
  w_report_file :: "report option"
  w_stdout :: "printed list"

definition invocations :: "world \<Rightarrow> nat" where
  "invocations w = w_remote_calls w + w_heuristic_calls w"

subsection \<open>Scoring with the cache\<close>

text \<open>\<open>self.config.backend or "auto"\<close>\<close>

definition backend_or_auto :: "judge \<Rightarrow> string" where
  "backend_or_auto j = (if cfg_backend (j_config j) = [] then ''auto'' else cfg_backend (j_config j))"

text \<open>\<open>_choose_backend\<close>; an import that fails counts as a backend that is not configured.\<close>

definition choose_backend :: "backends \<Rightarrow> judge \<Rightarrow> string" where
  "choose_backend ext j =
     (let backend = py_lower (py_strip (backend_or_auto j)) in
      if backend = ''gemini'' \<or> backend = ''groq'' \<or> backend = ''heuristic'' then backend
      else if is_gemini_configured ext then ''gemini''
      else if is_groq_configured ext then ''groq''
      else ''heuristic'')"

text \<open>\<open>_cache_key\<close>: the digest of the six fields, each followed by a zero byte but the last.\<close>

definition cache_key :: "backends \<Rightarrow> judge \<Rightarrow> string \<Rightarrow> string \<Rightarrow> string \<Rightarrow> string" where
  "cache_key ext j query doc_id doc_text =
     sha256_hex ext
       (backend_or_auto j @ [CHR 0x00]
        @ cfg_gemini_model (j_config j) @ [CHR 0x00]
        @ cfg_groq_model (j_config j) @ [CHR 0x00]
        @ query @ [CHR 0x00]
        @ doc_id @ [CHR 0x00]
        @ doc_text)"

text \<open>\<open>re.search(r"\b([012])\b", response_text)\<close>: the first of the digits \<open>0\<close>, \<open>1\<close>, \<open>2\<close>
  with no word character before or after it. \<open>prev\<close> says whether the character before is a
  word character.\<close>

fun find_label :: "bool \<Rightarrow> string \<Rightarrow> int option" where
  "find_label prev [] = None"
| "find_label prev (c # cs) =
     (if \<not> prev \<and> (c = CHR ''0'' \<or> c = CHR ''1'' \<or> c = CHR ''2'')
         \<and> (case cs of [] \<Rightarrow> True | d # _ \<Rightarrow> \<not> is_word d)
      then Some (int (of_char c) - 48)
      else find_label (is_word c) cs)"

text \<open>\<open>_log_once\<close> sets the flag; the log line itself is not modelled.\<close>

definition log_once :: "judge \<Rightarrow> judge" where
  "log_once j = (if j_logged_backend j then j else j\<lparr>j_logged_backend := True\<rparr>)"

text \<open>\<open>_save_cache\<close> rewrites the whole file, or raises when the file cannot be written.\<close>

definition save_cache :: "backends \<Rightarrow> judge \<Rightarrow> world \<Rightarrow> unit result \<times> world" where
  "save_cache ext j w =
     (if fs_writable ext then (Inr (), w\<lparr>w_cache_file := Some (j_cache j)\<rparr>)
      else (Inl (OtherError ''OSError''), w))"

text \<open>\<open>self._cache[key] = val; self._save_cache(); return val\<close>\<close>

definition store_label ::
  "backends \<Rightarrow> judge \<Rightarrow> world \<Rightarrow> string \<Rightarrow> int \<Rightarrow> int result \<times> judge \<times> world" where
  "store_label ext j w key val =
     (let j' = j\<lparr>j_cache := (j_cache j)(key \<mapsto> val)\<rparr> in
      case save_cache ext j' w of
        (Inl e, w') \<Rightarrow> (Inl e, j', w')
      | (Inr u, w') \<Rightarrow> (Inr val, j', w'))"

text \<open>The two remote branches of \<open>score\<close> differ in the probe, the call and the model name.\<close>

definition remote_score ::
  "backends \<Rightarrow> judge \<Rightarrow> world \<Rightarrow> string \<Rightarrow> bool \<Rightarrow> string result
     \<Rightarrow> int result \<times> judge \<times> world" where
  "remote_score ext j w key configured response =
     (if \<not> configured then (Inl RuntimeError, j, w)
      else
        let w1 = w\<lparr>w_remote_calls := w_remote_calls w + 1\<rparr> in
        case response of
          Inl e \<Rightarrow> (Inl e, j, w1)
        | Inr response_text \<Rightarrow>
            (case find_label False response_text of
               None \<Rightarrow> (Inl ValueError, j, w1)
             | Some val \<Rightarrow> store_label ext (log_once j) w1 key val))"

text \<open>\<open>LLMJudge.score(query, doc_id, doc_text)\<close>\<close>

definition judge_score ::
  "backends \<Rightarrow> judge \<Rightarrow> world \<Rightarrow> string \<Rightarrow> string \<Rightarrow> string \<Rightarrow> int result \<times> judge \<times> world" where
  "judge_score ext j w query doc_id doc_text =
     (let key = cache_key ext j query doc_id doc_text in
      case j_cache j key of
        Some v \<Rightarrow> (Inr v, j\<lparr>j_logged_cache := True\<rparr>, w)
      | None \<Rightarrow>
          let backend = choose_backend ext j in
          if backend = ''gemini'' then
            remote_score ext j w key (is_gemini_configured ext)
              (call_gemini ext (w_remote_calls w) query doc_text (cfg_gemini_model (j_config j)))
          else if backend = ''groq'' then
            remote_score ext j w key (is_groq_configured ext)
              (call_groq ext (w_remote_calls w) query doc_text (cfg_groq_model (j_config j)))
          else
            let w1 = w\<lparr>w_heuristic_calls := w_heuristic_calls w + 1\<rparr> in
            case heuristic_score query doc_text of
              Inl e \<Rightarrow> (Inl e, log_once j, w1)
            | Inr val \<Rightarrow> store_label ext (log_once j) w1 key val)"

section \<open>Evaluation and benchmark (llm.py)\<close>

text \<open>
  A model of \<open>models_dict\<close> is its \<open>search(query, top_k=top_k)\<close>; \<open>corpus_raw\<close> maps a document
  id to its text. Both are dictionaries that are iterated.
\<close>

type_synonym search_model = "string \<Rightarrow> int \<Rightarrow> ranking result"

type_synonym models_dict = "(string \<times> search_model) list"

type_synonym corpus_raw = "(string \<times> string) list"

definition print_line :: "printed \<Rightarrow> world \<Rightarrow> world" where
  "print_line p w = w\<lparr>w_stdout := w_stdout w @ [p]\<rparr>"

definition print_lines :: "printed list \<Rightarrow> world \<Rightarrow> world" where
  "print_lines ps w = w\<lparr>w_stdout := w_stdout w @ ps\<rparr>"

text \<open>\<open>judge_relevance_map\<close>: one call of \<open>judge.score\<close> per document; the first call that
  raises ends the loop.\<close>

fun judge_relevance_map ::
  "backends \<Rightarrow> string \<Rightarrow> corpus_raw \<Rightarrow> judge \<Rightarrow> world \<Rightarrow> (string \<times> int) list
     \<Rightarrow> (string \<times> int) list result \<times> judge \<times> world" where
  "judge_relevance_map ext query [] j w rel_map = (Inr rel_map, j, w)"
| "judge_relevance_map ext query ((doc_id, doc_text) # docs) j w rel_map =
     (case judge_score ext j w query doc_id doc_text of
        (Inl e, j', w') \<Rightarrow> (Inl e, j', w')
      | (Inr v, j', w') \<Rightarrow>
          judge_relevance_map ext query docs j' w' (rel_map @ [(doc_id, v)]))"

text \<open>The loop over \<open>ranked_docs\<close>: \<open>rel = int(rel_map.get(doc_id, 0))\<close>, one printed line per
  returned document.\<close>

fun collect_rels ::
  "ranking \<Rightarrow> (string \<times> int) list \<Rightarrow> world \<Rightarrow> int list \<Rightarrow> int list \<times> world" where
  "collect_rels [] rel_map w rels = (rels, w)"
| "collect_rels ((doc_id, score) # ranked_docs) rel_map w rels =
     (let rel = (case map_of rel_map doc_id of None \<Rightarrow> 0 | Some r \<Rightarrow> r) in
      collect_rels ranked_docs rel_map (print_line (DocLine doc_id score rel) w) (rels @ [rel]))"

text \<open>The loop of \<open>evaluate_models\<close> over the models.\<close>

fun evaluate_loop ::
  "string \<Rightarrow> models_dict \<Rightarrow> (string \<times> int) list \<Rightarrow> real \<Rightarrow> int \<Rightarrow> world
     \<Rightarrow> (string \<times> real) list \<Rightarrow> (string \<times> real) list result \<times> world" where
  "evaluate_loop query [] rel_map idcg top_k w ndcgs = (Inr ndcgs, w)"
| "evaluate_loop query ((model_name, search) # models) rel_map idcg top_k w ndcgs =
     (case search query top_k of
        Inl e \<Rightarrow> (Inl e, w)
      | Inr ranked_docs \<Rightarrow>
          (case collect_rels ranked_docs rel_map (print_line (ModelHeader model_name) w) [] of
             (rels, w2) \<Rightarrow>
               (case dcg_at_k rels top_k of
                  Inl e \<Rightarrow> (Inl e, w2)
                | Inr dcg \<Rightarrow>
                    (case (if 0 < idcg then py_div dcg idcg else Inr 0) of
                       Inl e \<Rightarrow> (Inl e, w2)
                     | Inr n \<Rightarrow>
                         evaluate_loop query models rel_map idcg top_k
                           (print_line (NdcgLine top_k n) w2)
                           (ndcgs @ [(model_name, n)])))))"

text \<open>\<open>evaluate_models(query, models_dict, corpus_raw, top_k=..., judge=...)\<close> with a judge
  given.\<close>

definition evaluate_models ::
  "backends \<Rightarrow> string \<Rightarrow> models_dict \<Rightarrow> corpus_raw \<Rightarrow> int \<Rightarrow> judge \<Rightarrow> world
     \<Rightarrow> (string \<times> real) list result \<times> judge \<times> world" where
  "evaluate_models ext query models corpus_raw top_k j w =
     (case judge_relevance_map ext query corpus_raw j (print_line (EvalHeader query) w) [] of
        (Inl e, j', w') \<Rightarrow> (Inl e, j', w')
      | (Inr rel_map, j', w') \<Rightarrow>
          (let ideal_rels = sorted_reverse (\<lambda>x. x) (map snd rel_map) in
           case dcg_at_k ideal_rels top_k of
             Inl e \<Rightarrow> (Inl e, j', w')
           | Inr idcg \<Rightarrow>
               (case evaluate_loop query models rel_map idcg top_k w' [] of
                  (r, w'') \<Rightarrow> (r, j', w''))))"

text \<open>What the \<open>except Exception\<close> branch of \<open>benchmark\<close> prints before \<open>raise SystemExit(1)\<close>:
  the cause, then the remediation guidance.\<close>

definition remediation :: "printed list" where
  "remediation =
     [Text (CHR 0x0A # ''Actions possibles:''),
      Text (''- Definir GROQ_API_KEY dans l'' @ [apostrophe]
            @ ''environnement ou dans un fichier .env''),
      Text (''- Verifier l'' @ [apostrophe] @ ''installation du SDK (ex: pip install groq)''),
      Text ''- Relancer avec LOG_LEVEL=DEBUG pour plus de details'']"

definition abort_lines :: "py_error \<Rightarrow> printed list" where
  "abort_lines exc =
     [Text (CHR 0x0A # ''[LLM] Impossible de continuer l'' @ [apostrophe]
            @ ''evaluation LLM-as-a-judge.''),
      CauseLine exc]
     @ remediation"

text \<open>
  The loop of \<open>benchmark\<close> over the queries. \<open>Inl code\<close> is \<open>SystemExit(code)\<close>; every
  exception of the embedding is an \<open>Exception\<close>, so the handler catches it.
\<close>

fun benchmark_loop ::
  "backends \<Rightarrow> string list \<Rightarrow> models_dict \<Rightarrow> corpus_raw \<Rightarrow> int \<Rightarrow> judge \<Rightarrow> world
     \<Rightarrow> (string \<times> (string \<times> real) list) list
     \<Rightarrow> (int + (string \<times> (string \<times> real) list) list) \<times> judge \<times> world" where
  "benchmark_loop ext [] models corpus_raw top_k j w per_query = (Inr per_query, j, w)"
| "benchmark_loop ext (q # qs) models corpus_raw top_k j w per_query =
     (case evaluate_models ext q models corpus_raw top_k j w of
        (Inl exc, j', w') \<Rightarrow> (Inl 1, j', print_lines (abort_lines exc) w')
      | (Inr ndcgs, j', w') \<Rightarrow>
          benchmark_loop ext qs models corpus_raw top_k j' w' (per_query @ [(q, ndcgs)]))"

text \<open>\<open>per_model_scores[name]\<close> after the loop: the scores of the model, query by query.\<close>

definition scores_of :: "string \<Rightarrow> (string \<times> (string \<times> real) list) list \<Rightarrow> real list" where
  "scores_of name per_query =
     concat (map (\<lambda>(q, ndcgs). map snd (filter (\<lambda>(n, s). n = name) ndcgs)) per_query)"

text \<open>\<open>avg = mean(scores) if scores else 0.0\<close>\<close>

definition mean_or_zero :: "real list \<Rightarrow> real" where
  "mean_or_zero scores = (if scores \<noteq> [] then sum_list scores / real (length scores) else 0)"

datatype bench_end =
    Returned "(string \<times> real) list"
  | SystemExit int
  | Uncaught py_error

text \<open>The payload of the report; the backend is named only when a label was computed in
  this run.\<close>

definition make_report ::
  "backends \<Rightarrow> judge \<Rightarrow> int \<Rightarrow> string list \<Rightarrow> (string \<times> (string \<times> real) list) list
     \<Rightarrow> (string \<times> real) list \<Rightarrow> report" where
  "make_report ext j top_k queries per_query summary =
     \<lparr> r_metric = top_k,
       r_queries = queries,
       r_per_query = per_query,
       r_summary = summary,
       r_backend = (if j_logged_backend j then choose_backend ext j else ''cache_only''),
       r_gemini_model = cfg_gemini_model (j_config j),
       r_groq_model = cfg_groq_model (j_config j),
       r_cache_path = cfg_cache_path (j_config j) \<rparr>"

text \<open>\<open>benchmark(queries, models_dict, corpus_raw, top_k=..., judge=..., output_path=...)\<close>
  with a judge given; writing the report raises when the file cannot be written.\<close>

definition benchmark ::
  "backends \<Rightarrow> string list \<Rightarrow> models_dict \<Rightarrow> corpus_raw \<Rightarrow> int \<Rightarrow> judge \<Rightarrow> world
     \<Rightarrow> string option \<Rightarrow> bench_end \<times> judge \<times> world" where
  "benchmark ext queries models corpus_raw top_k j w output_path =
     (case benchmark_loop ext queries models corpus_raw top_k j w [] of
        (Inl code, j', w') \<Rightarrow> (SystemExit code, j', w')
      | (Inr per_query, j', w') \<Rightarrow>
          (let summary =
                 map (\<lambda>(name, search). (name, mean_or_zero (scores_of name per_query))) models;
               w1 = print_lines
                      (Text (CHR 0x0A # ''=== Resume (moyenne nDCG) ==='')
                       # map (\<lambda>(name, avg). SummaryLine name top_k avg) summary)
                      w'
           in case output_path of
                None \<Rightarrow> (Returned summary, j', w1)
              | Some path \<Rightarrow>
                  (if \<not> fs_writable ext then (Uncaught (OtherError ''OSError''), j', w1)
                   else
                     (Returned summary, j',
                      print_line (ReportLine path)
                        (w1\<lparr>w_report_file :=
                              Some (make_report ext j' top_k queries per_query summary)\<rparr>)))))"

text \<open>
  ``The evaluation of some query of the run raises'': the queries are evaluated in order,
  each from the judge and the world the one before it left, and one of them ends in an
  exception.
\<close>

inductive evaluation_raises ::
  "backends \<Rightarrow> models_dict \<Rightarrow> corpus_raw \<Rightarrow> int \<Rightarrow> judge \<Rightarrow> world \<Rightarrow> string list \<Rightarrow> bool"
  for ext models corpus_raw top_k where
  raises_here:
    "evaluate_models ext q models corpus_raw top_k j w = (Inl exc, j', w')
     \<Longrightarrow> evaluation_raises ext models corpus_raw top_k j w (q # qs)"
| raises_later:
    "evaluate_models ext q models corpus_raw top_k j w = (Inr ndcgs, j', w')
     \<Longrightarrow> evaluation_raises ext models corpus_raw top_k j' w' qs
     \<Longrightarrow> evaluation_raises ext models corpus_raw top_k j w (q # qs)"

section \<open>Example inputs\<close>

text \<open>
  An environment with no backend configured, whose digest is the identity (a stand-in that
  is injective, as SHA-256 is taken to be), a judge just constructed with a given backend
  setting and an empty cache, and a world in which nothing has happened yet.
\<close>

definition offline :: backends where
  "offline =
     \<lparr> is_gemini_configured = False,
       is_groq_configured = False,
       call_gemini = (\<lambda>n query doc_text model. Inl RuntimeError),
       call_groq = (\<lambda>n query doc_text model. Inl RuntimeError),
       sha256_hex = (\<lambda>s. s),
       fs_writable = True \<rparr>"

definition fresh_judge :: "string \<Rightarrow> judge" where
  "fresh_judge backend =
     \<lparr> j_config = \<lparr> cfg_backend = backend,
                    cfg_gemini_model = ''gemini-flash-lite-latest'',
                    cfg_groq_model = ''llama-3.1-8b-instant'',
                    cfg_cache_path = ''.cache/llm_judge_cache.json'' \<rparr>,
       j_logged_backend = False,
       j_logged_cache = False,
       j_cache = Map.empty \<rparr>"

definition fresh_world :: world where
  "fresh_world =
     \<lparr> w_remote_calls = 0,
       w_heuristic_calls = 0,
       w_cache_file = None,
       w_report_file = None,
       w_stdout = [] \<rparr>"

section \<open>Basic facts\<close>

lemma bind_result_Inr [simp]: "bind_result (Inr v) f = f v"
  by (simp add: bind_result_def)

lemma bind_result_Inl [simp]: "bind_result (Inl e) f = Inl e"
  by (simp add: bind_result_def)

lemma init_lookups:
  "(map_of (map (\<lambda>(doc_id, tokens). (doc_id, length tokens)) corpus) d = None
    \<and> map_of (map (\<lambda>(doc_id, tokens). (doc_id, Counter tokens)) corpus) d = None)
   \<or> (\<exists>toks. map_of (map (\<lambda>(doc_id, tokens). (doc_id, length tokens)) corpus) d = Some (length toks)
    \<and> map_of (map (\<lambda>(doc_id, tokens). (doc_id, Counter tokens)) corpus) d = Some (Counter toks))"
  by (induction corpus) auto

lemma Counter_le_length: "Counter toks t \<le> length toks"
  by (simp add: Counter_def count_le_length)

lemma sorted_reverse_desc:
  fixes f :: "'a \<Rightarrow> real"
  shows "sorted_wrt (\<lambda>x y. f y \<le> f x) (sorted_reverse f xs)"
proof -
  have "sorted (map (\<lambda>x. - f x) (sort_key (\<lambda>x. - f x) xs))"
    by (rule sorted_sort_key)
  then show ?thesis
    by (simp add: sorted_reverse_def sorted_map)
qed

lemma py_take_eq_take: "\<exists>n. py_take k xs = take n xs"
  by (auto simp: py_take_def)

lemma py_top_eq_take: "\<exists>n. py_top top_k xs = take n xs"
proof (cases top_k)
  case None
  then have "py_top top_k xs = take (length xs) xs"
    by (simp add: py_top_def)
  then show ?thesis by blast
next
  case (Some k)
  then show ?thesis
    using py_take_eq_take [of k xs] by (simp add: py_top_def)
qed

lemma set_sorted_reverse [simp]: "set (sorted_reverse f xs) = set xs"
  by (simp add: sorted_reverse_def)



section \<open>Properties of DCG and nDCG\<close>

lemma py_log2_rank [simp]: "py_log2 (real (Suc n)) = Inr (log 2 (real (Suc n)))"
  by (simp add: py_log2_def)

lemma dcg_loop_sum:
  "1 \<le> rank \<Longrightarrow>
   dcg_loop score rank rest =
     Inr (score + (\<Sum>j < length rest. real_of_int (rest ! j) / log 2 (real (rank + j + 1))))"
proof (induction rest arbitrary: score rank)
  case Nil
  then show ?case by simp
next
  case (Cons rel rest)
  have "0 < log 2 (real (rank + 1))"
    using Cons.prems by (subst zero_less_log_cancel_iff) auto
  then have pos: "log 2 (real (rank + 1)) \<noteq> 0"
    by (rule less_imp_neq [THEN not_sym])
  have step: "dcg_loop score rank (rel # rest) =
      dcg_loop (score + real_of_int rel / log 2 (real (rank + 1))) (Suc rank) rest"
    using pos Cons.prems by (simp add: py_div_def py_log2_def)
  have ih: "dcg_loop (score + real_of_int rel / log 2 (real (rank + 1))) (Suc rank) rest =
      Inr (score + real_of_int rel / log 2 (real (rank + 1))
           + (\<Sum>j < length rest. real_of_int (rest ! j) / log 2 (real (Suc rank + j + 1))))"
    by (rule Cons.IH) simp
  define f where "f j = real_of_int ((rel # rest) ! j) / log 2 (real (rank + j + 1))" for j
  have "(\<Sum>j < length (rel # rest). f j) = (\<Sum>j < Suc (length rest). f j)"
    by simp
  also have "\<dots> = f 0 + (\<Sum>j < length rest. f (Suc j))"
    by (rule sum.lessThan_Suc_shift)
  finally have split: "(\<Sum>j < length (rel # rest). real_of_int ((rel # rest) ! j) / log 2 (real (rank + j + 1)))
      = real_of_int rel / log 2 (real (rank + 1))
        + (\<Sum>j < length rest. real_of_int (rest ! j) / log 2 (real (Suc rank + j + 1)))"
    by (simp add: f_def)
  show ?case
    unfolding step ih split by simp
qed





lemma log2_3_pos: "0 < log 2 (3::real)"
  by (subst zero_less_log_cancel_iff) auto








lemma dcg_at_k_total: "\<exists>d. dcg_at_k rels k = Inr d"
  by (cases "pad_rels rels k") (simp_all add: dcg_at_k_def dcg_loop_sum)


lemma length_sorted_reverse [simp]: "length (sorted_reverse f xs) = length xs"
  by (simp add: sorted_reverse_def)













section \<open>Properties of the Boolean model\<close>

declare pop_ops.simps [simp del] pop_to_lparen.simps [simp del] flush_stack.simps [simp del]

lemma py_peek_Cons [simp]: "py_peek (x # xs) = Inr x"
  by (simp add: py_peek_def)

lemma py_pop_Cons [simp]: "py_pop (x # xs) = Inr (x, xs)"
  by (simp add: py_pop_def)

lemma pop_ops_total:
  "prec tok \<noteq> None \<Longrightarrow> \<exists>out' stack'. pop_ops tok out stack = Inr (out', stack')"
proof (induction stack arbitrary: out)
  case Nil
  then show ?case by (subst pop_ops.simps) simp
next
  case (Cons tp stack)
  obtain b where b: "prec tok = Some b"
    using Cons.prems by auto
  show ?case
  proof (cases "prec tp")
    case None
    then show ?thesis by (subst pop_ops.simps) simp
  next
    case (Some a)
    show ?thesis
    proof (cases "a \<ge> b")
      case True
      then have "pop_ops tok out (tp # stack) = pop_ops tok (out @ [tp]) stack"
        by (subst pop_ops.simps) (simp add: prec_get_def Some b)
      then show ?thesis using Cons.IH [OF Cons.prems] by simp
    next
      case False
      then show ?thesis
        by (subst pop_ops.simps) (simp add: prec_get_def Some b)
    qed
  qed
qed

lemma pop_to_lparen_total:
  "\<exists>out' stack'. pop_to_lparen out stack = Inr (out', stack')"
proof (induction stack arbitrary: out)
  case Nil
  then show ?case by (subst pop_to_lparen.simps) simp
next
  case (Cons tp stack)
  show ?case
  proof (cases "tp = Tok_LPAREN")
    case True
    then show ?thesis by (subst pop_to_lparen.simps) simp
  next
    case False
    then have "pop_to_lparen out (tp # stack) = pop_to_lparen (out @ [tp]) stack"
      by (subst pop_to_lparen.simps) simp
    then show ?thesis using Cons.IH by simp
  qed
qed

lemma drop_lparen_total: "\<exists>stack'. drop_lparen stack = Inr stack'"
  by (cases stack) (simp_all add: drop_lparen_def)

lemma flush_stack_eq: "flush_stack out stack = Inr (out @ stack)"
proof (induction stack arbitrary: out)
  case Nil
  then show ?case by (subst flush_stack.simps) simp
next
  case (Cons x stack)
  have "flush_stack out (x # stack) = flush_stack (out @ [x]) stack"
    by (subst flush_stack.simps) simp
  then show ?case by (simp add: Cons.IH)
qed

lemma to_rpn_loop_total:
  "\<exists>out' stack'. to_rpn_loop toks out stack = Inr (out', stack')"
proof (induction toks arbitrary: out stack)
  case Nil
  then show ?case by simp
next
  case (Cons tok toks)
  show ?case
  proof (cases tok)
    case (Tok_TERM v)
    then show ?thesis using Cons.IH by simp
  next
    case Tok_AND
    obtain o1 s1 where "pop_ops tok out stack = Inr (o1, s1)"
      using pop_ops_total [of tok out stack] Tok_AND by auto
    then show ?thesis using Cons.IH Tok_AND by simp
  next
    case Tok_OR
    obtain o1 s1 where "pop_ops tok out stack = Inr (o1, s1)"
      using pop_ops_total [of tok out stack] Tok_OR by auto
    then show ?thesis using Cons.IH Tok_OR by simp
  next
    case Tok_NOT
    obtain o1 s1 where "pop_ops tok out stack = Inr (o1, s1)"
      using pop_ops_total [of tok out stack] Tok_NOT by auto
    then show ?thesis using Cons.IH Tok_NOT by simp
  next
    case Tok_LPAREN
    then show ?thesis using Cons.IH by simp
  next
    case Tok_RPAREN
    obtain o1 s1 where p: "pop_to_lparen out stack = Inr (o1, s1)"
      using pop_to_lparen_total by blast
    obtain s2 where d: "drop_lparen s1 = Inr s2"
      using drop_lparen_total by blast
    show ?thesis using Cons.IH Tok_RPAREN by (simp add: p d)
  qed
qed

lemma to_rpn_total: "\<exists>rpn. to_rpn tokens = Inr rpn"
proof -
  obtain out stack where "to_rpn_loop tokens [] [] = Inr (out, stack)"
    using to_rpn_loop_total by blast
  then show ?thesis by (simp add: to_rpn_def flush_stack_eq)
qed

lemma pop_or_False_spec: "pop_or_False stack = Inr (top_or_False stack, tl stack)"
  by (cases stack) (simp_all add: pop_or_False_def top_or_False_def)

lemma eval_rpn_loop_spec: "eval_rpn_loop rpn doc_set stack = Inr (spec_eval rpn doc_set stack)"
proof (induction rpn arbitrary: stack)
  case Nil
  then show ?case by simp
next
  case (Cons tok rpn)
  then show ?case
    by (cases tok) (simp_all add: pop_or_False_spec)
qed

lemma eval_rpn_spec:
  "eval_rpn rpn doc_terms = Inr (top_or_False (spec_eval rpn (set doc_terms) []))"
  by (cases "spec_eval rpn (set doc_terms) []")
     (simp_all add: eval_rpn_def eval_rpn_loop_spec top_or_False_def)

lemma eval_rpn_total: "\<exists>m. eval_rpn rpn doc_terms = Inr m"
  by (simp add: eval_rpn_spec)

lemma match_docs_eq:
  "match_docs rpn corpus =
     Inr (map (\<lambda>(doc_id, doc_terms). (doc_id, 1))
            (filter (\<lambda>(doc_id, doc_terms). eval_rpn rpn doc_terms = Inr True) corpus))"
proof (induction corpus)
  case Nil
  then show ?case by simp
next
  case (Cons doc corpus)
  obtain doc_id doc_terms where doc: "doc = (doc_id, doc_terms)"
    by (cases doc)
  obtain m where m: "eval_rpn rpn doc_terms = Inr m"
    using eval_rpn_total by blast
  show ?case by (simp add: doc m Cons.IH)
qed

lemma boolean_search_total: "\<exists>r. boolean_search corpus query top_k = Inr r"
proof -
  obtain rpn where "to_rpn (expand_terms [] (tokenize_boolean_query query)) = Inr rpn"
    using to_rpn_total by blast
  then show ?thesis
    by (simp add: boolean_search_def Let_def match_docs_eq)
qed








lemma rpn_a_and_b:
  "tokenize_boolean_query ''a AND b'' \<noteq> []"
  "to_rpn (expand_terms [] (tokenize_boolean_query ''a AND b'')) = Inr [Tok_TERM ''b'', Tok_AND]"
  by code_simp+






text \<open>With a term that is not a stop word in the place of \<open>a\<close>, the five outcomes are the
  ones the specification lists.\<close>

lemma boolean_search_doc_x_b:
  "includes_doc (boolean_search [(''d1'', [''x'', ''b''])] ''x AND b'' None) ''d1''
   \<and> excludes_doc (boolean_search [(''d1'', [''x'', ''b''])] ''x AND c'' None) ''d1''
   \<and> includes_doc (boolean_search [(''d1'', [''x'', ''b''])] ''x OR c'' None) ''d1''
   \<and> includes_doc (boolean_search [(''d1'', [''x'', ''b''])] ''NOT c'' None) ''d1''
   \<and> excludes_doc (boolean_search [(''d1'', [''x'', ''b''])] ''(x OR c) AND NOT b'' None) ''d1''"
  by code_simp

text \<open>
  Claim C8, as the code has it. For every query, corpus and \<open>top_k\<close> the search returns a
  result and raises nothing, and the postfix evaluation is the evaluation that reads every
  missing operand as \<open>False\<close>. The value of a malformed expression is whatever that
  evaluation gives; it need not be \<open>False\<close>.
\<close>

theorem boolean_search_never_raises:
  "(\<exists>r. boolean_search corpus query top_k = Inr r)
   \<and> eval_rpn rpn doc_terms = Inr (top_or_False (spec_eval rpn (set doc_terms) []))"
  using boolean_search_total eval_rpn_spec by blast

text \<open>Claim C8 as stated fails: the malformed query \<open>NOT\<close> negates the missing operand and
  so returns every document.\<close>

theorem boolean_search_malformed_counterexample:
  "boolean_search [(''d1'', [''x'']), (''d2'', [])] ''NOT'' None = Inr [(''d1'', 1), (''d2'', 1)]"
  by code_simp

section \<open>Properties of the BM25 model\<close>

lemma idf_value_eq:
  "n \<le> N \<Longrightarrow> idf_value N n = Inr (ln ((real N - real n + 0.5) / (real n + 0.5) + 1))"
proof -
  assume le: "n \<le> N"
  have ne: "real n + 0.5 \<noteq> 0"
    by (simp add: add_nonneg_eq_0_iff)
  have "0 \<le> (real N - real n + 0.5) / (real n + 0.5)"
    using le by (intro divide_nonneg_nonneg) auto
  then have pos: "0 < (real N - real n + 0.5) / (real n + 0.5) + 1"
    by linarith
  show ?thesis
    unfolding idf_value_def py_div_def py_log_def using ne pos
    by (simp only: if_False if_True bind_result_Inr)
qed

lemma idf_quotient_mono:
  assumes "n \<le> n'" and "n' \<le> N"
  shows "(real N - real n' + 0.5) / (real n' + 0.5) \<le> (real N - real n + 0.5) / (real n + 0.5)"
  using assms by (intro frac_le) auto

lemma idf_quotient_pos:
  assumes "n \<le> N"
  shows "0 < (real N - real n + 0.5) / (real n + 0.5)"
  using assms by (intro divide_pos_pos) auto

text \<open>
  Claim C2, as the code has it. The idf \<open>ln ((N - n + 0.5) / (n + 0.5) + 1)\<close> never raises
  for a document frequency \<open>n \<le> N\<close>, does not increase when \<open>n\<close> grows for a fixed \<open>N\<close>,
  and is strictly positive: the argument of the logarithm is \<open>(N + 1) / (n + 0.5) > 1\<close>.
  No clamp is applied and none is needed.
\<close>

theorem bm25_idf_monotone_positive:
  assumes "n \<le> n'" and "n' \<le> N"
  shows "\<exists>v v'. idf_value N n = Inr v \<and> idf_value N n' = Inr v'
           \<and> v = ln ((real N - real n + 0.5) / (real n + 0.5) + 1)
           \<and> v' \<le> v \<and> 0 < v'"
proof -
  let ?q = "(real N - real n + 0.5) / (real n + 0.5)"
  let ?q' = "(real N - real n' + 0.5) / (real n' + 0.5)"
  have n: "n \<le> N" using assms by simp
  have q': "0 < ?q'" using assms(2) by (rule idf_quotient_pos)
  have le: "?q' \<le> ?q" using assms by (rule idf_quotient_mono)
  have mono: "ln (?q' + 1) \<le> ln (?q + 1)"
    using q' le by (subst ln_le_cancel_iff) linarith+
  have pos: "0 < ln (?q' + 1)"
    using q' by (subst ln_gt_zero_iff) linarith+
  show ?thesis
    using idf_value_eq [OF n] idf_value_eq [OF assms(2)] mono pos by blast
qed

text \<open>A model built from a corpus has \<open>n \<le> N\<close> for every term.\<close>

lemma compute_df_le: "compute_df corpus t \<le> length corpus"
  by (simp add: compute_df_def)

lemma bm25_df_le_N: "bm_doc_freqs (bm25_init corpus k1 b) t \<le> bm_N (bm25_init corpus k1 b)"
  by (simp add: bm25_init_def compute_df_le)

text \<open>Claim C2 as stated fails: no term that occurs in more than half of the documents
  (indeed no term at all) has a negative idf.\<close>

theorem bm25_idf_negative_counterexample:
  "\<not> (\<exists>N n v. n \<le> N \<and> N < 2 * n \<and> idf_value N n = Inr v \<and> v < 0)"
proof
  assume "\<exists>N n v. n \<le> N \<and> N < 2 * n \<and> idf_value N n = Inr v \<and> v < 0"
  then obtain N n v where h: "n \<le> N" "idf_value N n = Inr v" "v < 0"
    by blast
  have "0 < (real N - real n + 0.5) / (real n + 0.5)"
    using h(1) by (rule idf_quotient_pos)
  then have "0 < ln ((real N - real n + 0.5) / (real n + 0.5) + 1)"
    by (subst ln_gt_zero_iff) linarith+
  then show False
    using h(2,3) idf_value_eq [OF h(1)] by simp
qed

text \<open>Three documents: a term in all three has idf \<open>ln (8 / 7)\<close>, a term in two has
  \<open>ln (8 / 5)\<close>.\<close>

theorem bm25_idf_monotone_positive_witness:
  "(2::nat) \<le> 3 \<and> (3::nat) \<le> 3
   \<and> idf_value 3 3 = Inr (ln (8 / 7)) \<and> idf_value 3 2 = Inr (ln (8 / 5))
   \<and> ln (8 / 7 :: real) \<le> ln (8 / 5) \<and> 0 < ln (8 / 7 :: real)"
proof -
  have a: "idf_value 3 3 = Inr (ln (8 / 7))"
    using idf_value_eq [of 3 3] by simp
  have b: "idf_value 3 2 = Inr (ln (8 / 5))"
    using idf_value_eq [of 2 3] by simp
  show ?thesis
    using bm25_idf_monotone_positive [of 2 3 3] unfolding a b by auto
qed

section \<open>Properties of the language model\<close>

lemma epsilon_bounds: "0 < epsilon" "epsilon \<le> 1"
  by (simp_all add: epsilon_def)

lemma smoothed_log_nonpos:
  assumes "0 \<le> lam" "lam \<le> 1" "0 \<le> p" "p \<le> 1" "0 \<le> c" "c \<le> (1::real)"
  shows "0 < max ((1 - lam) * p + lam * c) epsilon"
    and "ln (max ((1 - lam) * p + lam * c) epsilon) \<le> 0"
proof -
  have "(1 - lam) * p \<le> (1 - lam) * 1"
    using assms by (intro mult_left_mono) auto
  moreover have "lam * c \<le> lam * 1"
    using assms by (intro mult_left_mono) auto
  ultimately have "(1 - lam) * p + lam * c \<le> 1"
    by simp
  then have le: "max ((1 - lam) * p + lam * c) epsilon \<le> 1"
    using epsilon_bounds by simp
  show pos: "0 < max ((1 - lam) * p + lam * c) epsilon"
    using epsilon_bounds by (simp add: less_max_iff_disj)
  show "ln (max ((1 - lam) * p + lam * c) epsilon) \<le> 0"
    using pos le by (subst ln_le_zero_iff) auto
qed

lemma lm_terms_nonpos:
  assumes "probs_ok m" and "\<And>t. doc_probs t \<le> doc_len"
  shows "\<exists>s. lm_terms m doc_len doc_probs ts acc = Inr s \<and> s \<le> acc"
proof (induction ts arbitrary: acc)
  case Nil
  then show ?case by simp
next
  case (Cons t ts)
  define p where "p = (if 0 < doc_len then real (doc_probs t) / real doc_len else 0)"
  define c where "c = (case lm_collection_probs m t of None \<Rightarrow> 0 | Some p \<Rightarrow> p)"
  have pd: "(if 0 < doc_len then py_div (real (doc_probs t)) (real doc_len) else Inr 0) = Inr p"
    by (simp add: p_def py_div_def)
  have p: "0 \<le> p" "p \<le> 1"
    using assms(2) [of t] by (auto simp: p_def divide_le_eq)
  have c: "0 \<le> c" "c \<le> 1"
    using assms(1) by (auto simp: c_def probs_ok_def split: option.splits)
  have lam: "0 \<le> lm_lam m" "lm_lam m \<le> 1"
    using assms(1) by (auto simp: probs_ok_def)
  note sm = smoothed_log_nonpos [OF lam p c]
  have step: "lm_terms m doc_len doc_probs (t # ts) acc =
      lm_terms m doc_len doc_probs ts (acc + ln (max ((1 - lm_lam m) * p + lm_lam m * c) epsilon))"
    using sm(1) by (simp add: pd py_log_def Let_def c_def)
  obtain s where s: "lm_terms m doc_len doc_probs ts
      (acc + ln (max ((1 - lm_lam m) * p + lm_lam m * c) epsilon)) = Inr s"
    "s \<le> acc + ln (max ((1 - lm_lam m) * p + lm_lam m * c) epsilon)"
    using Cons.IH by blast
  show ?case
    using s sm(2) unfolding step by auto
qed

lemma lm_docs_nonpos:
  assumes "probs_ok m" and "counts_ok m"
  shows "\<exists>r. lm_docs m query_tokens docs = Inr r \<and> (\<forall>x \<in> set r. snd x \<le> 0)
            \<and> map fst r = map fst docs"
proof (induction docs)
  case Nil
  then show ?case by simp
next
  case (Cons doc docs)
  obtain doc_id doc_tokens where doc: "doc = (doc_id, doc_tokens)"
    by (cases doc)
  define doc_len where
    "doc_len = (case lm_doc_lens m doc_id of None \<Rightarrow> length doc_tokens | Some l \<Rightarrow> l)"
  define doc_probs where
    "doc_probs = (case lm_doc_counts m doc_id of None \<Rightarrow> Counter doc_tokens | Some c \<Rightarrow> c)"
  have ok: "doc_probs t \<le> doc_len" for t
    using assms(2) [unfolded counts_ok_def, rule_format, of doc_id]
    by (auto simp: doc_len_def doc_probs_def Counter_le_length)
  obtain s where s: "lm_terms m doc_len doc_probs query_tokens 0 = Inr s" "s \<le> 0"
    using lm_terms_nonpos [where m = m and doc_probs = doc_probs and doc_len = doc_len
        and ts = query_tokens and acc = 0] assms(1) ok by blast
  obtain r where r: "lm_docs m query_tokens docs = Inr r" "\<forall>x \<in> set r. snd x \<le> 0"
    "map fst r = map fst docs"
    using Cons.IH by blast
  have "lm_docs m query_tokens (doc # docs) = Inr ((doc_id, s) # r)"
    using s(1) r(1) by (simp add: doc Let_def doc_len_def [symmetric] doc_probs_def [symmetric])
  then show ?case
    using s(2) r(2,3) by (simp add: doc)
qed

lemma collection_prob_bounds:
  "0 \<le> real (Counter toks t) / real (length toks)"
  "real (Counter toks t) / real (length toks) \<le> 1"
  using Counter_le_length [of toks t] by (auto simp: divide_le_eq)

lemma lm_init_probs_ok: "0 \<le> lam \<Longrightarrow> lam \<le> 1 \<Longrightarrow> probs_ok (lm_init corpus lam)"
  by (auto simp: probs_ok_def lm_init_def Let_def collection_prob_bounds split: if_splits)

lemma lm_init_counts_ok: "counts_ok (lm_init corpus lam)"
  using init_lookups [of corpus] by (simp add: counts_ok_def lm_init_def Let_def)

text \<open>
  Claim C9. For a model built from any corpus with \<open>0 \<le> lam \<le> 1\<close>, any query and any
  \<open>top_k\<close>, the search returns (no logarithm or division raises), every returned score is
  at most \<open>0\<close>, and the results are in descending order of score.
\<close>

theorem lm_search_nonpos_sorted:
  assumes "0 \<le> lam" and "lam \<le> 1"
  shows "\<exists>r. lm_search (lm_init corpus lam) query top_k = Inr r
           \<and> (\<forall>x \<in> set r. snd x \<le> 0)
           \<and> sorted_wrt (\<lambda>x y. snd y \<le> snd x) r"
proof -
  let ?m = "lm_init corpus lam"
  obtain scores where sc: "lm_docs ?m (preprocess query) (lm_corpus ?m) = Inr scores"
      "\<forall>x \<in> set scores. snd x \<le> 0"
    using lm_docs_nonpos [OF lm_init_probs_ok [OF assms] lm_init_counts_ok] by blast
  obtain n where n: "py_top top_k (sorted_reverse snd scores) = take n (sorted_reverse snd scores)"
    using py_top_eq_take by blast
  have res: "lm_search ?m query top_k = Inr (take n (sorted_reverse snd scores))"
    by (simp add: lm_search_def Let_def sc(1) n)
  have "set (take n (sorted_reverse snd scores)) \<subseteq> set scores"
    using set_take_subset [of n "sorted_reverse snd scores"] by simp
  then have neg: "\<forall>x \<in> set (take n (sorted_reverse snd scores)). snd x \<le> 0"
    using sc(2) by blast
  have srt: "sorted_wrt (\<lambda>x y. snd y \<le> snd x) (take n (sorted_reverse snd scores))"
    by (intro sorted_wrt_take sorted_reverse_desc)
  show ?thesis
    using res neg srt by blast
qed


text \<open>Two documents, \<open>lam = 1 / 2\<close>, query \<open>x\<close>: the scores are \<open>ln (5 / 12)\<close> and
  \<open>ln (1 / 6)\<close>.\<close>

lemma preprocess_x: "preprocess ''x'' = [''x'']"
  by code_simp

lemma ln_order: "- ln (5 / 12 :: real) \<le> - ln (1 / 6)"
  by (subst neg_le_iff_le, subst ln_le_cancel_iff) simp_all

lemma lm_example:
  "lm_search (lm_init [(''d1'', [''x'', ''y'']), (''d2'', [''y''])] (1 / 2)) ''x'' None
     = Inr [(''d1'', ln (5 / 12)), (''d2'', ln (1 / 6))]"
  using ln_order
  by (simp add: lm_search_def lm_init_def Let_def preprocess_x Counter_def py_div_def py_log_def
      epsilon_def py_top_def sorted_reverse_def max_def)

theorem lm_search_nonpos_sorted_witness:
  "(0::real) \<le> 1 / 2 \<and> (1 / 2 :: real) \<le> 1
   \<and> (\<exists>r. lm_search (lm_init [(''d1'', [''x'', ''y'']), (''d2'', [''y''])] (1 / 2)) ''x'' None = Inr r
          \<and> (\<forall>x \<in> set r. snd x \<le> 0)
          \<and> sorted_wrt (\<lambda>x y. snd y \<le> snd x) r)"
  using lm_search_nonpos_sorted [of "1 / 2" "[(''d1'', [''x'', ''y'']), (''d2'', [''y''])]" "''x''" None]
  by simp

section \<open>The four models on a query without tokens\<close>





lemma Counter_Nil [simp]: "Counter [] t = 0"
  by (simp add: Counter_def)



























text \<open>Claim C10 as stated fails: \<open>not\<close> is a stop word, so preprocessing leaves no token,
  but the Boolean model reads it as the operator and returns every document.\<close>

lemma preprocess_not: "preprocess ''not'' = []"
  by code_simp



lemma tokenize_boolean_the: "tokenize_boolean_query ''the'' = []"
  by code_simp



section \<open>Properties of the relevance judge\<close>

text \<open>The heuristic's tokens, joined, are the word characters and apostrophes of the text.\<close>

lemma word_runs_concat:
  "concat (word_runs cur s) = cur @ filter (\<lambda>c. is_word c \<or> c = apostrophe) s"
  by (induction s arbitrary: cur) auto


text \<open>The two thresholds as comparisons of natural numbers.\<close>

lemma ratio_six_tenths:
  fixes k n :: nat
  assumes "0 < n"
  shows "(6 / 10 \<le> real k / real n) = (3 * n \<le> 5 * k)"
proof -
  have "(6 / 10 \<le> real k / real n) = (6 / 10 * real n \<le> real k)"
    using assms by (simp add: pos_le_divide_eq)
  also have "\<dots> = (real (3 * n) \<le> real (5 * k))"
    by (simp add: field_simps)
  also have "\<dots> = (3 * n \<le> 5 * k)"
    by (simp only: of_nat_le_iff)
  finally show ?thesis .
qed

lemma ratio_quarter:
  fixes k n :: nat
  assumes "0 < n"
  shows "(25 / 100 \<le> real k / real n) = (n \<le> 4 * k)"
proof -
  have "(25 / 100 \<le> real k / real n) = (25 / 100 * real n \<le> real k)"
    using assms by (simp add: pos_le_divide_eq)
  also have "\<dots> = (real n \<le> real (4 * k))"
    by (simp add: field_simps)
  also have "\<dots> = (n \<le> 4 * k)"
    by (simp only: of_nat_le_iff)
  finally show ?thesis .
qed

lemma heuristic_score_integer:
  "heuristic_score query doc_text = Inr
     (let q_tokens = filter (\<lambda>t. 3 \<le> length t) (heuristic_tokenize query);
          d_tokens = filter (\<lambda>t. 3 \<le> length t) (heuristic_tokenize doc_text);
          overlap = length (filter (\<lambda>t. t \<in> set d_tokens) q_tokens)
      in if q_tokens = [] then 0
         else if 3 * length q_tokens \<le> 5 * overlap then 2
         else if length q_tokens \<le> 4 * overlap then 1
         else 0)"
proof -
  define q_tokens where "q_tokens = filter (\<lambda>t. 3 \<le> length t) (heuristic_tokenize query)"
  show ?thesis
  proof (cases "q_tokens = []")
    case True
    then show ?thesis
      unfolding heuristic_score_def Let_def q_tokens_def [symmetric] by simp
  next
    case False
    then have n: "0 < length q_tokens"
      by simp
    have n1: "max 1 (length q_tokens) = length q_tokens"
      using False by (cases q_tokens) simp_all
    have r: "py_div x (real (max 1 (length q_tokens))) = Inr (x / real (length q_tokens))" for x
      unfolding n1 py_div_def using False by simp
    show ?thesis
      unfolding heuristic_score_def Let_def q_tokens_def [symmetric] r
        bind_result_Inr ratio_six_tenths [OF n] ratio_quarter [OF n]
      using False by simp
  qed
qed









lemma log_once_fields [simp]:
  "j_config (log_once j) = j_config j" "j_cache (log_once j) = j_cache j"
  by (simp_all add: log_once_def)

lemma store_label_Inr:
  assumes "store_label ext j w key val = (Inr v, j1, w1)"
  shows "v = val \<and> j_cache j1 key = Some val \<and> j_config j1 = j_config j
       \<and> invocations w1 = invocations w"
  using assms
  by (auto simp: store_label_def save_cache_def Let_def invocations_def split: if_splits)

lemma remote_score_Inr:
  assumes "remote_score ext j w key configured response = (Inr v, j1, w1)"
  shows "j_cache j1 key = Some v \<and> j_config j1 = j_config j
       \<and> invocations w1 = invocations w + 1"
proof -
  from assms obtain response_text val where
    s: "store_label ext (log_once j) (w\<lparr>w_remote_calls := w_remote_calls w + 1\<rparr>) key val
          = (Inr v, j1, w1)"
    by (auto simp: remote_score_def Let_def split: if_splits sum.splits option.splits)
  show ?thesis
    using store_label_Inr [OF s] by (simp add: invocations_def)
qed

lemma cache_key_config:
  "j_config j1 = j_config j \<Longrightarrow>
   cache_key ext j1 query doc_id doc_text = cache_key ext j query doc_id doc_text"
  by (simp add: cache_key_def backend_or_auto_def)

lemma judge_score_miss_Inr:
  assumes "j_cache j (cache_key ext j query doc_id doc_text) = None"
    and "judge_score ext j w query doc_id doc_text = (Inr v, j1, w1)"
  shows "j_cache j1 (cache_key ext j query doc_id doc_text) = Some v \<and> j_config j1 = j_config j
       \<and> invocations w1 = invocations w + 1"
proof -
  let ?key = "cache_key ext j query doc_id doc_text"
  consider (gemini) "choose_backend ext j = ''gemini''"
    | (groq) "choose_backend ext j \<noteq> ''gemini''" "choose_backend ext j = ''groq''"
    | (heuristic) "choose_backend ext j \<noteq> ''gemini''" "choose_backend ext j \<noteq> ''groq''"
    by blast
  then show ?thesis
  proof cases
    case gemini
    then have "remote_score ext j w ?key (is_gemini_configured ext)
        (call_gemini ext (w_remote_calls w) query doc_text (cfg_gemini_model (j_config j)))
        = (Inr v, j1, w1)"
      using assms by (simp add: judge_score_def Let_def)
    then show ?thesis by (rule remote_score_Inr)
  next
    case groq
    then have "remote_score ext j w ?key (is_groq_configured ext)
        (call_groq ext (w_remote_calls w) query doc_text (cfg_groq_model (j_config j)))
        = (Inr v, j1, w1)"
      using assms by (simp add: judge_score_def Let_def)
    then show ?thesis by (rule remote_score_Inr)
  next
    case heuristic
    then obtain val where
      s: "store_label ext (log_once j) (w\<lparr>w_heuristic_calls := w_heuristic_calls w + 1\<rparr>) ?key val
            = (Inr v, j1, w1)"
      using assms by (auto simp: judge_score_def Let_def split: sum.splits)
    show ?thesis
      using store_label_Inr [OF s] by (simp add: invocations_def)
  qed
qed

lemma judge_score_hit:
  "j_cache j (cache_key ext j query doc_id doc_text) = Some v \<Longrightarrow>
   judge_score ext j w query doc_id doc_text = (Inr v, j\<lparr>j_logged_cache := True\<rparr>, w)"
  by (simp add: judge_score_def Let_def)

text \<open>
  Claim C6. When the key of a call \<open>score(query, doc_id, doc_text)\<close> is not in the cache and
  the call returns a label, exactly one invocation of a backend or of the heuristic has
  happened and the label is in the cache under the same key (the configuration, and with it
  the key, is unchanged); a second call with the same arguments then returns the same label
  and leaves the world as it is: no invocation, no write.
\<close>

theorem judge_score_cached_once:
  assumes "j_cache j (cache_key ext j query doc_id doc_text) = None"
    and "judge_score ext j w query doc_id doc_text = (Inr v, j1, w1)"
  shows "invocations w1 = invocations w + 1
       \<and> j_config j1 = j_config j
       \<and> j_cache j1 (cache_key ext j1 query doc_id doc_text) = Some v
       \<and> (\<exists>j2. judge_score ext j1 w1 query doc_id doc_text = (Inr v, j2, w1)
                \<and> j_cache j2 = j_cache j1)"
proof -
  have m: "j_cache j1 (cache_key ext j query doc_id doc_text) = Some v"
    "j_config j1 = j_config j" "invocations w1 = invocations w + 1"
    using judge_score_miss_Inr [OF assms] by simp_all
  have k: "cache_key ext j1 query doc_id doc_text = cache_key ext j query doc_id doc_text"
    using m(2) by (rule cache_key_config)
  have hit: "j_cache j1 (cache_key ext j1 query doc_id doc_text) = Some v"
    using m(1) k by simp
  have "judge_score ext j1 w1 query doc_id doc_text = (Inr v, j1\<lparr>j_logged_cache := True\<rparr>, w1)"
    using hit by (rule judge_score_hit)
  then show ?thesis
    using m hit by simp
qed


text \<open>The heuristic backend on an empty cache: the first call scores \<open>2\<close> with one
  invocation, the second call is answered from the cache.\<close>

lemma offline_writable: "fs_writable offline"
  by (simp add: offline_def)

lemma choose_heuristic: "choose_backend offline (fresh_judge ''heuristic'') = ''heuristic''"
  by code_simp

lemma tokens_ml:
  "filter (\<lambda>t. 3 \<le> length t) (heuristic_tokenize ''machine learning'') = [''machine'', ''learning'']"
  "filter (\<lambda>t. 3 \<le> length t) (heuristic_tokenize ''Machine learning text'')
     = [''machine'', ''learning'', ''text'']"
  by code_simp+

lemma heuristic_ml: "heuristic_score ''machine learning'' ''Machine learning text'' = Inr 2"
  unfolding heuristic_score_integer Let_def tokens_ml by simp

theorem judge_score_cached_once_witness:
  "j_cache (fresh_judge ''heuristic'')
     (cache_key offline (fresh_judge ''heuristic'') ''machine learning'' ''d1'' ''Machine learning text'')
     = None
   \<and> (\<exists>j1 w1.
         judge_score offline (fresh_judge ''heuristic'') fresh_world
           ''machine learning'' ''d1'' ''Machine learning text'' = (Inr 2, j1, w1)
       \<and> invocations fresh_world = 0 \<and> invocations w1 = 1
       \<and> (\<exists>j2. judge_score offline j1 w1 ''machine learning'' ''d1'' ''Machine learning text''
                  = (Inr 2, j2, w1)))"
proof -
  have miss: "j_cache (fresh_judge ''heuristic'')
      (cache_key offline (fresh_judge ''heuristic'') ''machine learning'' ''d1'' ''Machine learning text'')
      = None"
    by (simp add: fresh_judge_def)
  obtain j1 w1 where first: "judge_score offline (fresh_judge ''heuristic'') fresh_world
      ''machine learning'' ''d1'' ''Machine learning text'' = (Inr 2, j1, w1)"
    by (simp add: judge_score_def miss choose_heuristic heuristic_ml store_label_def
        save_cache_def offline_writable Let_def)
  have zero: "invocations fresh_world = 0"
    by (simp add: invocations_def fresh_world_def)
  show ?thesis
    using judge_score_cached_once [OF miss first] miss first zero by auto
qed

section \<open>Properties of the benchmark\<close>

text \<open>Nothing before the end of \<open>benchmark\<close> touches the report file.\<close>

lemma print_line_report [simp]: "w_report_file (print_line p w) = w_report_file w"
  by (simp add: print_line_def)

lemma print_lines_report [simp]: "w_report_file (print_lines ps w) = w_report_file w"
  by (simp add: print_lines_def)

lemma print_lines_stdout [simp]: "w_stdout (print_lines ps w) = w_stdout w @ ps"
  by (simp add: print_lines_def)

lemma store_label_report:
  "store_label ext j w key val = (r, j1, w1) \<Longrightarrow> w_report_file w1 = w_report_file w"
  by (auto simp: store_label_def save_cache_def Let_def split: if_splits)

lemma remote_score_report:
  "remote_score ext j w key configured response = (r, j1, w1) \<Longrightarrow>
   w_report_file w1 = w_report_file w"
  by (auto simp: remote_score_def Let_def split: if_splits sum.splits option.splits
      dest: store_label_report)

lemma judge_score_report:
  "judge_score ext j w query doc_id doc_text = (r, j1, w1) \<Longrightarrow>
   w_report_file w1 = w_report_file w"
  by (auto simp: judge_score_def Let_def split: if_splits sum.splits option.splits
      dest: store_label_report remote_score_report)

lemma judge_relevance_map_report:
  "judge_relevance_map ext query docs j w rel_map = (r, j1, w1) \<Longrightarrow>
   w_report_file w1 = w_report_file w"
proof (induction docs arbitrary: j w rel_map)
  case Nil
  then show ?case by simp
next
  case (Cons doc docs)
  obtain doc_id doc_text where doc: "doc = (doc_id, doc_text)"
    by (cases doc)
  obtain r0 j0 w0 where s: "judge_score ext j w query doc_id doc_text = (r0, j0, w0)"
    by (cases "judge_score ext j w query doc_id doc_text") auto
  have w0: "w_report_file w0 = w_report_file w"
    using s by (rule judge_score_report)
  show ?case
  proof (cases r0)
    case (Inl e)
    then show ?thesis using Cons.prems w0 by (simp add: doc s)
  next
    case (Inr v)
    then have "judge_relevance_map ext query docs j0 w0 (rel_map @ [(doc_id, v)]) = (r, j1, w1)"
      using Cons.prems by (simp add: doc s)
    then show ?thesis using Cons.IH w0 by simp
  qed
qed

lemma collect_rels_report:
  "collect_rels ranked rel_map w rels = (rels', w') \<Longrightarrow> w_report_file w' = w_report_file w"
proof (induction ranked arbitrary: w rels)
  case Nil
  then show ?case by simp
next
  case (Cons x ranked)
  obtain doc_id score where x: "x = (doc_id, score)"
    by (cases x)
  show ?case
    using Cons.prems Cons.IH by (fastforce simp: x Let_def)
qed

lemma evaluate_loop_report:
  "evaluate_loop query models rel_map idcg top_k w ndcgs = (r, w') \<Longrightarrow>
   w_report_file w' = w_report_file w"
proof (induction models arbitrary: w ndcgs)
  case Nil
  then show ?case by simp
next
  case (Cons model models)
  obtain model_name search where model: "model = (model_name, search)"
    by (cases model)
  show ?case
  proof (cases "search query top_k")
    case (Inl e)
    then show ?thesis using Cons.prems by (simp add: model)
  next
    case (Inr ranked_docs)
    obtain rels w2 where c:
      "collect_rels ranked_docs rel_map (print_line (ModelHeader model_name) w) [] = (rels, w2)"
      by (cases "collect_rels ranked_docs rel_map (print_line (ModelHeader model_name) w) []") auto
    have w2: "w_report_file w2 = w_report_file w"
      using collect_rels_report [OF c] by simp
    show ?thesis
    proof (cases "dcg_at_k rels top_k")
      case (Inl e)
      then show ?thesis using Cons.prems w2 by (simp add: model Inr c)
    next
      case dcg: (Inr dcg)
      show ?thesis
      proof (cases "if 0 < idcg then py_div dcg idcg else Inr 0")
        case (Inl e)
        then show ?thesis using Cons.prems w2 by (simp add: model Inr c dcg)
      next
        case n: (Inr n)
        have "evaluate_loop query models rel_map idcg top_k
            (print_line (NdcgLine top_k n) w2) (ndcgs @ [(model_name, n)]) = (r, w')"
          using Cons.prems by (simp add: model Inr c dcg n)
        then show ?thesis using Cons.IH w2 by fastforce
      qed
    qed
  qed
qed

lemma evaluate_models_report:
  assumes "evaluate_models ext query models corpus_raw top_k j w = (r, j', w')"
  shows "w_report_file w' = w_report_file w"
proof -
  obtain r0 j0 w0 where m:
    "judge_relevance_map ext query corpus_raw j (print_line (EvalHeader query) w) [] = (r0, j0, w0)"
    by (cases "judge_relevance_map ext query corpus_raw j (print_line (EvalHeader query) w) []") auto
  have w0: "w_report_file w0 = w_report_file w"
    using judge_relevance_map_report [OF m] by simp
  show ?thesis
  proof (cases r0)
    case (Inl e)
    then show ?thesis using assms w0 by (simp add: evaluate_models_def m)
  next
    case (Inr rel_map)
    show ?thesis
    proof (cases "dcg_at_k (sorted_reverse (\<lambda>x. x) (map snd rel_map)) top_k")
      case (Inl e)
      then show ?thesis using assms w0 by (simp add: evaluate_models_def m Inr)
    next
      case idcg: (Inr idcg)
      obtain r1 w1 where l: "evaluate_loop query models rel_map idcg top_k w0 [] = (r1, w1)"
        by (cases "evaluate_loop query models rel_map idcg top_k w0 []") auto
      have "w' = w1"
        using assms by (simp add: evaluate_models_def m Inr idcg l)
      then show ?thesis
        using evaluate_loop_report [OF l] w0 by simp
    qed
  qed
qed

lemma benchmark_loop_aborts:
  assumes "evaluation_raises ext models corpus_raw top_k j w queries"
  shows "\<exists>j' w' before exc.
           benchmark_loop ext queries models corpus_raw top_k j w per_query = (Inl 1, j', w')
         \<and> w_report_file w' = w_report_file w
         \<and> w_stdout w' = before @ abort_lines exc"
  using assms
proof (induction arbitrary: per_query rule: evaluation_raises.induct)
  case (raises_here q j w exc j' w' qs)
  have "benchmark_loop ext (q # qs) models corpus_raw top_k j w per_query
      = (Inl 1, j', print_lines (abort_lines exc) w')"
    by (simp add: raises_here)
  moreover have "w_report_file (print_lines (abort_lines exc) w') = w_report_file w"
    using evaluate_models_report [OF raises_here] by simp
  moreover have "w_stdout (print_lines (abort_lines exc) w') = w_stdout w' @ abort_lines exc"
    by simp
  ultimately show ?case by blast
next
  case (raises_later q j w ndcgs j' w' qs)
  obtain j'' w'' before exc where
    l: "benchmark_loop ext qs models corpus_raw top_k j' w' (per_query @ [(q, ndcgs)])
          = (Inl 1, j'', w'')"
      "w_report_file w'' = w_report_file w'" "w_stdout w'' = before @ abort_lines exc"
    using raises_later.IH by blast
  have "benchmark_loop ext (q # qs) models corpus_raw top_k j w per_query = (Inl 1, j'', w'')"
    by (simp add: raises_later.hyps(1) l(1))
  moreover have "w_report_file w'' = w_report_file w"
    using evaluate_models_report [OF raises_later.hyps(1)] l(2) by simp
  ultimately show ?case using l(3) by blast
qed

text \<open>
  Claim C7. When the evaluation of some query of the run raises, \<open>benchmark\<close> ends in
  \<open>SystemExit(1)\<close>, the last lines it printed are the cause and the remediation guidance,
  and the report file is what it was before the run: no report is written, whatever
  \<open>output_path\<close> is.
\<close>

theorem benchmark_aborts_without_report:
  assumes "evaluation_raises ext models corpus_raw top_k j w queries"
  shows "\<exists>j' w' before exc.
           benchmark ext queries models corpus_raw top_k j w output_path = (SystemExit 1, j', w')
         \<and> w_report_file w' = w_report_file w
         \<and> w_stdout w' = before @ abort_lines exc"
proof -
  obtain j' w' before exc where
    l: "benchmark_loop ext queries models corpus_raw top_k j w [] = (Inl 1, j', w')"
      "w_report_file w' = w_report_file w" "w_stdout w' = before @ abort_lines exc"
    using benchmark_loop_aborts [OF assms] by blast
  have "benchmark ext queries models corpus_raw top_k j w output_path = (SystemExit 1, j', w')"
    by (simp add: benchmark_def l(1))
  then show ?thesis using l(2,3) by blast
qed


text \<open>The backend \<open>gemini\<close> forced with no key configured: the first judgement raises
  \<open>RuntimeError\<close>.\<close>

lemma choose_gemini: "choose_backend offline (fresh_judge ''gemini'') = ''gemini''"
  by code_simp

lemma offline_gemini: "\<not> is_gemini_configured offline"
  by (simp add: offline_def)

lemma evaluate_unconfigured:
  "evaluate_models offline q models ((doc_id, doc_text) # docs) top_k (fresh_judge ''gemini'') w
     = (Inl RuntimeError, fresh_judge ''gemini'', print_line (EvalHeader q) w)"
proof -
  have miss: "j_cache (fresh_judge ''gemini'') k = None" for k
    by (simp add: fresh_judge_def)
  show ?thesis
    by (simp add: evaluate_models_def judge_score_def miss choose_gemini remote_score_def
        offline_gemini Let_def)
qed

theorem benchmark_aborts_without_report_witness:
  "evaluation_raises offline [(''Booleen (AND/OR/NOT)'', \<lambda>q k. boolean_search [(''d1'', [''machine'', ''learning''])] q (Some k))]
     [(''d1'', ''Machine learning text'')] 5 (fresh_judge ''gemini'') fresh_world
     [''machine learning'']
   \<and> (\<exists>j' w' before exc.
         benchmark offline [''machine learning'']
           [(''Booleen (AND/OR/NOT)'', \<lambda>q k. boolean_search [(''d1'', [''machine'', ''learning''])] q (Some k))]
           [(''d1'', ''Machine learning text'')] 5 (fresh_judge ''gemini'') fresh_world
           (Some ''reports/llm_judge_benchmark.json'') = (SystemExit 1, j', w')
       \<and> w_report_file w' = None
       \<and> w_stdout w' = before @ abort_lines exc)"
proof -
  have h: "evaluation_raises offline
      [(''Booleen (AND/OR/NOT)'', \<lambda>q k. boolean_search [(''d1'', [''machine'', ''learning''])] q (Some k))]
      [(''d1'', ''Machine learning text'')] 5 (fresh_judge ''gemini'') fresh_world
      [''machine learning'']"
    by (rule raises_here) (rule evaluate_unconfigured)
  have none: "w_report_file fresh_world = None"
    by (simp add: fresh_world_def)
  show ?thesis
    using benchmark_aborts_without_report [OF h, of "Some ''reports/llm_judge_benchmark.json''"] h
    unfolding none by blast
qed

text \<open>The other branch, for comparison: with the heuristic backend the same run returns
  and writes the report.\<close>

lemma choose_backend_config:
  "j_config j1 = j_config j \<Longrightarrow> choose_backend ext j1 = choose_backend ext j"
  by (simp add: choose_backend_def backend_or_auto_def)

lemma benchmark_writes_report:
  "\<exists>summary j' w' rep.
     benchmark offline [''machine learning''] [] [(''d1'', ''Machine learning text'')] 5
       (fresh_judge ''heuristic'') fresh_world (Some ''reports/llm_judge_benchmark.json'')
       = (Returned summary, j', w')
     \<and> w_report_file w' = Some rep \<and> r_backend rep = ''heuristic''"
proof -
  have miss: "j_cache (fresh_judge ''heuristic'') k = None" for k
    by (simp add: fresh_judge_def)
  obtain d where d: "dcg_at_k (sorted_reverse (\<lambda>x. x) [2]) 5 = Inr d"
    using dcg_at_k_total by blast
  have cfg: "j_config (log_once (fresh_judge ''heuristic'')) = j_config (fresh_judge ''heuristic'')"
    by simp
  have ch: "choose_backend offline (log_once (fresh_judge ''heuristic'')\<lparr>j_cache := c\<rparr>) = ''heuristic''" for c
    using choose_heuristic
      choose_backend_config [of "log_once (fresh_judge ''heuristic'')\<lparr>j_cache := c\<rparr>"
        "fresh_judge ''heuristic''" offline]
    by simp
  have lg: "j_logged_backend (log_once (fresh_judge ''heuristic''))"
    by (simp add: log_once_def)
  show ?thesis
    by (simp add: benchmark_def evaluate_models_def judge_score_def miss choose_heuristic
        heuristic_ml store_label_def save_cache_def offline_writable Let_def d make_report_def
        ch lg)
qed

end
